theory Spec2Isabelle
  imports Complex_Main "HOL-Library.Word"
begin

section \<open>Numbers, points and rectangles\<close>

text \<open>
  The editor computes with JavaScript numbers.  They are modelled as exact reals: every
  finite double is a real, and the theorems below speak about the arithmetic the code
  writes down, without rounding.  Non-finite values (a division by zero gives
  \<^verbatim>\<open>Infinity\<close> or \<^verbatim>\<open>NaN\<close> in JavaScript) are outside the model; wherever a
  theorem divides, the divisor is shown or assumed to be non-zero.

  \<^verbatim>\<open>interface Point { x: number; y: number; }\<close>
  \<^verbatim>\<open>interface ImageGeom { x: number; y: number; width: number; height: number; }\<close>
  The fields carry a prefix, since \<open>x\<close> and \<open>y\<close> are wanted as variables.
\<close>

record Point =
  px :: real
  py :: real

record ImageGeom =
  geom_x :: real
  geom_y :: real
  geom_width :: real
  geom_height :: real

record ImageSize =
  size_width :: real
  size_height :: real

subsection \<open>calculateObjectContainGeometry\<close>

definition calculateObjectContainGeometry :: "real \<Rightarrow> real \<Rightarrow> real \<Rightarrow> real \<Rightarrow> ImageGeom" where
  "calculateObjectContainGeometry containerWidth containerHeight imgNaturalWidth imgNaturalHeight =
     (let imgRatio = imgNaturalWidth / imgNaturalHeight;
          containerRatio = containerWidth / containerHeight
      in if imgRatio > containerRatio
         then (let renderedWidth = containerWidth;
                   renderedHeight = renderedWidth / imgRatio
               in \<lparr>geom_x = 0, geom_y = (containerHeight - renderedHeight) / 2,
                   geom_width = renderedWidth, geom_height = renderedHeight\<rparr>)
         else (let renderedHeight = containerHeight;
                   renderedWidth = renderedHeight * imgRatio
               in \<lparr>geom_x = (containerWidth - renderedWidth) / 2, geom_y = 0,
                   geom_width = renderedWidth, geom_height = renderedHeight\<rparr>))"

section \<open>The perspective-transform solver\<close>

subsection \<open>Numbers\<close>

text \<open>
  A JavaScript \<^verbatim>\<open>number\<close> is an IEEE 754 double.  The solver is where rounding decides
  what the program returns, so its arithmetic is modelled as the program performs it:
  every \<^verbatim>\<open>+\<close>, \<^verbatim>\<open>-\<close>, \<^verbatim>\<open>*\<close> and \<^verbatim>\<open>/\<close> computes the exact result and rounds it to
  the nearest double, ties to the even significand.  A finite double is a real number
  \<open>m * 2^e\<close> with an integer \<open>m\<close> of magnitude below \<open>2^53\<close> and \<open>e\<close> at least \<open>-1074\<close>;
  \<open>toDouble\<close> rounds a real number to the nearest one: the unit in the last place of a
  number in \<open>[2^k, 2^(k+1))\<close> is \<open>2^(k-52)\<close>, and \<open>2^(-1074)\<close> throughout the subnormal
  range.  Negation, \<^verbatim>\<open>Math.abs\<close> and the comparisons are exact.

  The model has the finite doubles only.  In the solver a value can leave their range
  only by overflow; the properties below are stated for coordinates of magnitude at
  most \<open>2^20\<close>, for which no entry of the elimination exceeds \<open>2^53\<close> and no value of the
  back substitution exceeds \<open>2^700\<close>, so \<^verbatim>\<open>Infinity\<close> and \<^verbatim>\<open>NaN\<close> do not arise.  (The sign of
  zero is not modelled either: the solver never divides by zero, and \<open>-0\<close> prints as
  \<open>0\<close>.)
\<close>

definition roundHalfEven :: "real \<Rightarrow> int" where
  "roundHalfEven x =
     (let f = \<lfloor>x\<rfloor>; d = x - of_int f
      in if d < 1 / 2 then f else if d > 1 / 2 then f + 1 else if even f then f else f + 1)"

definition ulpExponent :: "real \<Rightarrow> int" where
  "ulpExponent x = max (\<lfloor>log 2 \<bar>x\<bar>\<rfloor> - 52) (- 1074)"

definition toDouble :: "real \<Rightarrow> real" where
  "toDouble x =
     (if x = 0 then 0
      else of_int (roundHalfEven (x / 2 powr of_int (ulpExponent x))) * 2 powr of_int (ulpExponent x))"

subsection \<open>solveSystem: Gaussian elimination with partial pivoting\<close>

text \<open>
  \<^verbatim>\<open>const solveSystem = (A: number[][], b: number[]): number[] | null\<close>
  works in place on \<^verbatim>\<open>augmentedMatrix = A.map((row, i) => [...row, b[i]])\<close>, an array of
  rows.  The model passes the matrix along; every JavaScript loop is a \<open>fold\<close> over its
  index range, with the loop body as the folded function, and the early
  \<^verbatim>\<open>return null\<close> of the outer loop is the value \<open>None\<close>.
  The rows of the augmented matrix are distinct arrays, so swapping two rows and
  updating one row while reading another involve no aliasing.
\<close>

type_synonym matrix = "real list list"

definition augment :: "real list list \<Rightarrow> real list \<Rightarrow> matrix" where
  "augment A b = map (\<lambda>i. A ! i @ [b ! i]) [0..<length A]"

text \<open>
  The search for the pivot row:
  \<^verbatim>\<open>let maxRow = i; for (let k = i + 1; k < n; k++) if (Math.abs(M[k][i]) > Math.abs(M[maxRow][i])) maxRow = k;\<close>
\<close>

definition findMaxRow :: "matrix \<Rightarrow> nat \<Rightarrow> nat \<Rightarrow> nat" where
  "findMaxRow augmentedMatrix n i =
     fold (\<lambda>k maxRow. if \<bar>augmentedMatrix ! k ! i\<bar> > \<bar>augmentedMatrix ! maxRow ! i\<bar> then k else maxRow)
          [Suc i..<n] i"

text \<open>
  \<^verbatim>\<open>[M[i], M[maxRow]] = [M[maxRow], M[i]]\<close>: both right-hand sides are read before
  either assignment.
\<close>

definition swapRows :: "matrix \<Rightarrow> nat \<Rightarrow> nat \<Rightarrow> matrix" where
  "swapRows augmentedMatrix i maxRow =
     (augmentedMatrix[i := augmentedMatrix ! maxRow])[maxRow := augmentedMatrix ! i]"

text \<open>
  The innermost loop, for one row \<open>k\<close> below the pivot row:
  \<^verbatim>\<open>const factor = -M[k][i] / M[i][i];\<close>
  \<^verbatim>\<open>for (let j = i; j < n + 1; j++) { if (i === j) M[k][j] = 0; else M[k][j] += factor * M[i][j]; }\<close>
\<close>

definition eliminateRow :: "nat \<Rightarrow> nat \<Rightarrow> real list \<Rightarrow> real list \<Rightarrow> real list" where
  "eliminateRow n i pivotRow row =
     (let factor = toDouble (- (row ! i) / (pivotRow ! i))
      in fold (\<lambda>j r. if i = j then r[j := 0] else r[j := toDouble (r ! j + toDouble (factor * (pivotRow ! j)))])
              [i..<n + 1] row)"

text \<open>\<^verbatim>\<open>for (let k = i + 1; k < n; k++) { ... }\<close> over the rows below the pivot row.\<close>

definition eliminateBelow :: "nat \<Rightarrow> nat \<Rightarrow> matrix \<Rightarrow> matrix" where
  "eliminateBelow n i augmentedMatrix =
     fold (\<lambda>k M. M[k := eliminateRow n i (M ! i) (M ! k)]) [Suc i..<n] augmentedMatrix"

text \<open>
  The constant \<^verbatim>\<open>1e-9\<close> of \<^verbatim>\<open>if (Math.abs(M[i][i]) < 1e-9) return null;\<close>: the literal
  denotes the double nearest to \<open>10^(-9)\<close>.
\<close>

definition pivotThreshold :: real where
  "pivotThreshold = toDouble (1 / 10 ^ 9)"

text \<open>
  The outer loop \<^verbatim>\<open>for (let i = 0; i < n; i++)\<close>, run over the list of its indices:
  pivot search, swap, threshold test (the early return), elimination.
\<close>

fun forwardElimination :: "nat \<Rightarrow> nat list \<Rightarrow> matrix \<Rightarrow> matrix option" where
  "forwardElimination n [] augmentedMatrix = Some augmentedMatrix"
| "forwardElimination n (i # rest) augmentedMatrix =
     (let swapped = swapRows augmentedMatrix i (findMaxRow augmentedMatrix n i)
      in if \<bar>swapped ! i ! i\<bar> < pivotThreshold then None
         else forwardElimination n rest (eliminateBelow n i swapped))"

text \<open>
  Back substitution, \<^verbatim>\<open>for (let i = n - 1; i >= 0; i--)\<close>:
  \<^verbatim>\<open>x[i] = M[i][n] / M[i][i]; for (let k = i - 1; k >= 0; k--) M[k][n] -= M[k][i] * x[i];\<close>
  starting from \<^verbatim>\<open>x = new Array(n).fill(0)\<close>.
\<close>

definition backStep :: "nat \<Rightarrow> nat \<Rightarrow> matrix \<times> real list \<Rightarrow> matrix \<times> real list" where
  "backStep n i = (\<lambda>(augmentedMatrix, x).
     let x' = x[i := toDouble (augmentedMatrix ! i ! n / augmentedMatrix ! i ! i)];
         M' = fold (\<lambda>k M. M[k := (M ! k)[n := toDouble (M ! k ! n - toDouble (M ! k ! i * x' ! i))]])
                   (rev [0..<i]) augmentedMatrix
     in (M', x'))"

definition backSubstitution :: "nat \<Rightarrow> matrix \<Rightarrow> real list" where
  "backSubstitution n augmentedMatrix =
     snd (fold (backStep n) (rev [0..<n]) (augmentedMatrix, replicate n 0))"

definition solveSystem :: "real list list \<Rightarrow> real list \<Rightarrow> real list option" where
  "solveSystem A b =
     (let n = length A
      in case forwardElimination n [0..<n] (augment A b) of
           None \<Rightarrow> None
         | Some augmentedMatrix \<Rightarrow> Some (backSubstitution n augmentedMatrix))"

subsection \<open>getPerspectiveTransform\<close>

text \<open>
  One round of \<^verbatim>\<open>for (let i = 0; i < 4; i++)\<close>: two rows are pushed on \<open>A\<close> and two
  entries on \<open>b\<close>.  The four products \<^verbatim>\<open>-x * xp\<close>, \<^verbatim>\<open>-y * xp\<close>, \<^verbatim>\<open>-x * yp\<close>,
  \<^verbatim>\<open>-y * yp\<close> are rounded; the coordinates are the doubles the points hold.
\<close>

definition pushEquations :: "Point list \<Rightarrow> Point list \<Rightarrow> nat \<Rightarrow> real list list \<times> real list \<Rightarrow> real list list \<times> real list" where
  "pushEquations src dst i = (\<lambda>(A, b).
     let x = px (src ! i); y = py (src ! i);
         xp = px (dst ! i); yp = py (dst ! i)
     in (A @ [[x, y, 1, 0, 0, 0, toDouble (- x * xp), toDouble (- y * xp)],
              [0, 0, 0, x, y, 1, toDouble (- x * yp), toDouble (- y * yp)]],
         b @ [xp, yp]))"

definition perspectiveSystem :: "Point list \<Rightarrow> Point list \<Rightarrow> real list list \<times> real list" where
  "perspectiveSystem src dst = fold (pushEquations src dst) [0..<4] ([], [])"

text \<open>
  The function returns a CSS string, \<^verbatim>\<open>'none'\<close> or
  \<^verbatim>\<open>`matrix3d(${matrix.join(',')})`\<close>.  The model returns \<open>None\<close> for
  \<^verbatim>\<open>'none'\<close> and the sixteen numbers of \<^verbatim>\<open>matrix\<close> otherwise.  The system
  is always 8 by 8, so no index of \<open>solveSystem\<close> is out of range here.
\<close>

definition getPerspectiveTransform :: "Point list \<Rightarrow> Point list \<Rightarrow> real list option" where
  "getPerspectiveTransform src dst =
     (if length src \<noteq> 4 \<or> length dst \<noteq> 4 then None
      else let (A, b) = perspectiveSystem src dst
           in case solveSystem A b of
                None \<Rightarrow> None
              | Some h \<Rightarrow> Some [h ! 0, h ! 3, 0, h ! 6,
                                 h ! 1, h ! 4, 0, h ! 7,
                                 0, 0, 1, 0,
                                 h ! 2, h ! 5, 0, 1])"


section \<open>The colour filter\<close>

text \<open>
  \<^verbatim>\<open>interface ColorFilter { color: string; tolerance: number; }\<close> and the rule set
  \<^verbatim>\<open>filters: { keep: ColorFilter[]; remove: ColorFilter[] }\<close>.  An \<^verbatim>\<open>{ r, g, b }\<close>
  object holds three integers.  The pixel buffer \<^verbatim>\<open>imageData.data\<close> is a
  \<^verbatim>\<open>Uint8ClampedArray\<close>: a list of bytes, four per pixel.
\<close>

type_synonym byte = "8 word"

record Rgb =
  rgb_r :: nat
  rgb_g :: nat
  rgb_b :: nat

record ColorFilter =
  color :: string
  tolerance :: real

record ColorFilters =
  keepFilters :: "ColorFilter list"
  removeFilters :: "ColorFilter list"

subsection \<open>hexToRgb and colorDistance\<close>

text \<open>
  \<^verbatim>\<open>/^#?([a-f\d]{2})([a-f\d]{2})([a-f\d]{2})$/i.exec(hex)\<close> with
  \<^verbatim>\<open>parseInt(result[k], 16)\<close> on each group: an optional \<open>#\<close>, then exactly six
  hexadecimal digits of either case; anything else gives \<^verbatim>\<open>null\<close>.
\<close>

definition hexDigit :: "char \<Rightarrow> nat option" where
  "hexDigit c =
     (let n = (of_char c :: nat)
      in if 48 \<le> n \<and> n \<le> 57 then Some (n - 48)
         else if 97 \<le> n \<and> n \<le> 102 then Some (n - 87)
         else if 65 \<le> n \<and> n \<le> 70 then Some (n - 55)
         else None)"

definition parseHexPair :: "char \<Rightarrow> char \<Rightarrow> nat option" where
  "parseHexPair hi lo =
     (case (hexDigit hi, hexDigit lo) of
        (Some h, Some l) \<Rightarrow> Some (16 * h + l)
      | _ \<Rightarrow> None)"

definition hexToRgb :: "string \<Rightarrow> Rgb option" where
  "hexToRgb hex =
     (let digits = (case hex of c # rest \<Rightarrow> if c = CHR ''#'' then rest else hex | [] \<Rightarrow> hex)
      in case digits of
           [r1, r2, g1, g2, b1, b2] \<Rightarrow>
             (case (parseHexPair r1 r2, parseHexPair g1 g2, parseHexPair b1 b2) of
                (Some r, Some g, Some b) \<Rightarrow> Some \<lparr>rgb_r = r, rgb_g = g, rgb_b = b\<rparr>
              | _ \<Rightarrow> None)
         | _ \<Rightarrow> None)"

text \<open>
  \<^verbatim>\<open>Math.sqrt(Math.pow(rgb1.r - rgb2.r, 2) + Math.pow(rgb1.g - rgb2.g, 2) + Math.pow(rgb1.b - rgb2.b, 2))\<close>
\<close>

definition colorDistance :: "Rgb \<Rightarrow> Rgb \<Rightarrow> real" where
  "colorDistance rgb1 rgb2 =
     sqrt ((real (rgb_r rgb1) - real (rgb_r rgb2)) ^ 2
         + (real (rgb_g rgb1) - real (rgb_g rgb2)) ^ 2
         + (real (rgb_b rgb1) - real (rgb_b rgb2)) ^ 2)"

subsection \<open>processImageColors\<close>

text \<open>
  \<^verbatim>\<open>filters.keep.map(f => ({ ...hexToRgb(f.color)!, targetColor: hexToRgb(f.color)!, tolerance: f.tolerance * 2.55 }))\<close>
  and the same without \<^verbatim>\<open>targetColor\<close> for \<^verbatim>\<open>filters.remove\<close>.  The colour and the
  target colour of a keep rule are the same parsed value, kept once in the model.  When
  the string does not parse, \<^verbatim>\<open>hexToRgb\<close> is \<^verbatim>\<open>null\<close>, the spread adds no
  \<^verbatim>\<open>r, g, b\<close>, the distance is \<^verbatim>\<open>NaN\<close> and \<^verbatim>\<open>NaN < tolerance\<close> is false: such a
  rule matches no pixel.
\<close>

record FilterRgb =
  filterColor :: "Rgb option"
  filterTolerance :: real

definition toFilterRgb :: "ColorFilter \<Rightarrow> FilterRgb" where
  "toFilterRgb f = \<lparr>filterColor = hexToRgb (color f), filterTolerance = tolerance f * (255 / 100)\<rparr>"

definition withinTolerance :: "Rgb \<Rightarrow> FilterRgb \<Rightarrow> bool" where
  "withinTolerance pixelRgb f =
     (case filterColor f of
        None \<Rightarrow> False
      | Some c \<Rightarrow> colorDistance pixelRgb c < filterTolerance f)"

text \<open>
  \<^verbatim>\<open>let isRemoved = false; for (const remove of removeRgbs) { if (colorDistance(pixelRgb, remove) < remove.tolerance) { isRemoved = true; break; } }\<close>
\<close>

fun removeLoop :: "Rgb \<Rightarrow> FilterRgb list \<Rightarrow> bool" where
  "removeLoop pixelRgb [] = False"
| "removeLoop pixelRgb (remove # rest) =
     (if withinTolerance pixelRgb remove then True else removeLoop pixelRgb rest)"

text \<open>
  A store into a \<^verbatim>\<open>Uint8ClampedArray\<close> clamps to 0..255 (the values stored here are
  non-negative integers); a store at an index beyond the array is ignored, as
  \<open>xs[i := v]\<close> is.
\<close>

definition toUint8Clamped :: "nat \<Rightarrow> byte" where
  "toUint8Clamped v = (if v > 255 then 255 else of_nat v)"

text \<open>
  The keep loop: the first rule within tolerance recolours the pixel at offset \<open>i\<close>,
  sets \<^verbatim>\<open>isKept = true\<close> and breaks.  The result is the flag and the buffer.
\<close>

fun keepLoop :: "nat \<Rightarrow> Rgb \<Rightarrow> FilterRgb list \<Rightarrow> byte list \<Rightarrow> bool \<times> byte list" where
  "keepLoop i pixelRgb [] data = (False, data)"
| "keepLoop i pixelRgb (keep # rest) data =
     (case filterColor keep of
        None \<Rightarrow> keepLoop i pixelRgb rest data
      | Some targetColor \<Rightarrow>
          if colorDistance pixelRgb targetColor < filterTolerance keep
          then (True, data[i := toUint8Clamped (rgb_r targetColor),
                           i + 1 := toUint8Clamped (rgb_g targetColor),
                           i + 2 := toUint8Clamped (rgb_b targetColor),
                           i + 3 := 255])
          else keepLoop i pixelRgb rest data)"

text \<open>The body of \<^verbatim>\<open>for (let i = 0; i < data.length; i += 4)\<close> for the pixel at offset \<open>i\<close>.\<close>

definition processPixel :: "FilterRgb list \<Rightarrow> FilterRgb list \<Rightarrow> nat \<Rightarrow> byte list \<Rightarrow> byte list" where
  "processPixel keepRgbs removeRgbs i data =
     (let pixelRgb = \<lparr>rgb_r = unat (data ! i), rgb_g = unat (data ! (i + 1)), rgb_b = unat (data ! (i + 2))\<rparr>;
          isRemoved = removeLoop pixelRgb removeRgbs
      in if isRemoved then data[i + 3 := 0]
         else if length keepRgbs > 0
              then (let (isKept, data') = keepLoop i pixelRgb keepRgbs data
                    in if \<not> isKept then data'[i + 3 := 0] else data')
              else data)"

text \<open>
  The pixel loop over the buffer read from the canvas.  \<^verbatim>\<open>data.length\<close> is fixed, so
  the loop runs over the offsets \<open>0, 4, 8, \<dots>\<close> below it.  (Loading the image, drawing
  it on a canvas and encoding the result as a PNG data URL are outside the model.)
\<close>

definition processImageColors :: "ColorFilters \<Rightarrow> byte list \<Rightarrow> byte list" where
  "processImageColors filters data =
     (let keepRgbs = map toFilterRgb (keepFilters filters);
          removeRgbs = map toFilterRgb (removeFilters filters)
      in fold (processPixel keepRgbs removeRgbs)
              (map (\<lambda>k. 4 * k) [0..<(length data + 3) div 4]) data)"

section \<open>The editor: state, event handlers and effects\<close>

text \<open>
  The \<^verbatim>\<open>Editor\<close> component keeps its state in React state variables; its event
  handlers call their setters, and after the re-render React runs every effect one of
  whose dependencies changed.  The model is a record of the state variables, one function
  per handler and per effect, and a dispatcher that runs a handler and then the effects.

  React compares dependencies with \<^verbatim>\<open>Object.is\<close>: numbers, booleans and strings by
  value, objects and arrays by identity.  Every setter call of the editor for an object
  or array passes a freshly built one, so the model keeps a generation number beside each
  such variable and the setter increments it: two renders hold the same object exactly
  when the generation numbers agree.

  The page layout is part of the state: \<open>containerDom\<close> and \<open>previewDom\<close> are what
  \<^verbatim>\<open>getBoundingClientRect()\<close> returns for the main container and for the thumbnail of
  the cadastral map.  The thumbnail is rendered in Auto Pin mode only, so
  \<^verbatim>\<open>overlayPreviewRef.current\<close> is non-null exactly then.
\<close>

datatype EditMode = Manual | Auto

datatype PinTarget = Source | Dest

record DomRect =
  rect_left :: real
  rect_top :: real
  rect_width :: real
  rect_height :: real

record MouseEvent =
  clientX :: real
  clientY :: real
  targetInPreview :: bool

record Editor =
  transform :: "real list option"
  editMode :: EditMode
  containerRect :: "DomRect option"
  containerRectGen :: nat
  overlayImageSize :: "ImageSize option"
  overlayImageSizeGen :: nat
  imageRenderGeom :: ImageGeom
  imageRenderGeomGen :: nat
  overlayPreviewGeom :: ImageGeom
  destPoints :: "Point list"
  destPointsGen :: nat
  sourcePoints :: "Point list"
  sourcePointsGen :: nat
  draggingPointIndex :: "nat option"
  draggingSourcePointIndex :: "nat option"
  pinningStep :: nat
  manualScale :: real
  isManuallyAdjusted :: bool
  saveWithOverlay :: bool
  processedOverlayUrl :: "string option"
  containerDom :: DomRect
  previewDom :: DomRect

text \<open>The \<^verbatim>\<open>useState\<close> initial values; the layout is whatever the page has.\<close>

definition initialEditor :: "DomRect \<Rightarrow> DomRect \<Rightarrow> Editor" where
  "initialEditor container preview =
     \<lparr>transform = None, editMode = Manual,
      containerRect = None, containerRectGen = 0,
      overlayImageSize = None, overlayImageSizeGen = 0,
      imageRenderGeom = \<lparr>geom_x = 0, geom_y = 0, geom_width = 0, geom_height = 0\<rparr>, imageRenderGeomGen = 0,
      overlayPreviewGeom = \<lparr>geom_x = 0, geom_y = 0, geom_width = 0, geom_height = 0\<rparr>,
      destPoints = [], destPointsGen = 0,
      sourcePoints = [], sourcePointsGen = 0,
      draggingPointIndex = None, draggingSourcePointIndex = None,
      pinningStep = 0, manualScale = 1 / 2, isManuallyAdjusted = False,
      saveWithOverlay = True, processedOverlayUrl = None,
      containerDom = container, previewDom = preview\<rparr>"

subsection \<open>Setters of the object-valued state variables\<close>

definition setDestPoints :: "Point list \<Rightarrow> Editor \<Rightarrow> Editor" where
  "setDestPoints ps s = s\<lparr>destPoints := ps, destPointsGen := Suc (destPointsGen s)\<rparr>"

definition setSourcePoints :: "Point list \<Rightarrow> Editor \<Rightarrow> Editor" where
  "setSourcePoints ps s = s\<lparr>sourcePoints := ps, sourcePointsGen := Suc (sourcePointsGen s)\<rparr>"

definition setImageRenderGeom :: "ImageGeom \<Rightarrow> Editor \<Rightarrow> Editor" where
  "setImageRenderGeom g s = s\<lparr>imageRenderGeom := g, imageRenderGeomGen := Suc (imageRenderGeomGen s)\<rparr>"

definition setOverlayImageSize :: "ImageSize \<Rightarrow> Editor \<Rightarrow> Editor" where
  "setOverlayImageSize sz s = s\<lparr>overlayImageSize := Some sz, overlayImageSizeGen := Suc (overlayImageSizeGen s)\<rparr>"

definition setContainerRect :: "DomRect \<Rightarrow> Editor \<Rightarrow> Editor" where
  "setContainerRect r s = s\<lparr>containerRect := Some r, containerRectGen := Suc (containerRectGen s)\<rparr>"

definition overlayPreviewRef :: "Editor \<Rightarrow> DomRect option" where
  "overlayPreviewRef s = (if editMode s = Auto then Some (previewDom s) else None)"

subsection \<open>Handlers\<close>

text \<open>
  \<^verbatim>\<open>currentPoints.map((point, index) => index === draggedIndex ? newPoint : point)\<close>
\<close>

definition replacePoint :: "nat \<Rightarrow> Point \<Rightarrow> Point list \<Rightarrow> Point list" where
  "replacePoint draggedIndex newPoint currentPoints =
     map (\<lambda>(index, point). if index = draggedIndex then newPoint else point) (enumerate 0 currentPoints)"

text \<open>
  \<^verbatim>\<open>updatePointsForScale\<close>.  (\<^verbatim>\<open>!imageRenderGeom\<close> is never true: the state variable
  always holds an object.)
\<close>

definition updatePointsForScale :: "real \<Rightarrow> Editor \<Rightarrow> Editor \<Rightarrow> Editor" where
  "updatePointsForScale scale render s =
     (case overlayImageSize render of
        None \<Rightarrow> s
      | Some overlaySize \<Rightarrow>
          if geom_width (imageRenderGeom render) = 0 then s
          else
            (let geom = imageRenderGeom render;
                 overlayAspect = size_width overlaySize / size_height overlaySize;
                 containerAspect = geom_width geom / geom_height geom;
                 scaledWidth = (if overlayAspect > containerAspect then geom_width geom * scale
                                else geom_height geom * scale * overlayAspect);
                 scaledHeight = (if overlayAspect > containerAspect then geom_width geom * scale / overlayAspect
                                 else geom_height geom * scale);
                 centerX = geom_x geom + geom_width geom / 2;
                 centerY = geom_y geom + geom_height geom / 2
             in setDestPoints
                  [\<lparr>px = centerX - scaledWidth / 2, py = centerY - scaledHeight / 2\<rparr>,
                   \<lparr>px = centerX + scaledWidth / 2, py = centerY - scaledHeight / 2\<rparr>,
                   \<lparr>px = centerX + scaledWidth / 2, py = centerY + scaledHeight / 2\<rparr>,
                   \<lparr>px = centerX - scaledWidth / 2, py = centerY + scaledHeight / 2\<rparr>] s))"

definition handleModeChange :: "EditMode \<Rightarrow> Editor \<Rightarrow> Editor" where
  "handleModeChange mode s =
     s\<lparr>editMode := mode, transform := None, pinningStep := 0, isManuallyAdjusted := False\<rparr>"

definition handleManualScaleChange :: "real \<Rightarrow> Editor \<Rightarrow> Editor" where
  "handleManualScaleChange newScale s = s\<lparr>isManuallyAdjusted := False, manualScale := newScale\<rparr>"

text \<open>The Reset Points button: \<^verbatim>\<open>setManualScale(0.5); setIsManuallyAdjusted(false);\<close>\<close>

definition handleResetPoints :: "Editor \<Rightarrow> Editor" where
  "handleResetPoints s = s\<lparr>manualScale := 1 / 2, isManuallyAdjusted := False\<rparr>"

definition handleManualPointDrag :: "Point \<Rightarrow> nat \<Rightarrow> Editor \<Rightarrow> Editor" where
  "handleManualPointDrag newPoint draggedIndex s =
     setDestPoints (replacePoint draggedIndex newPoint (destPoints s)) (s\<lparr>isManuallyAdjusted := True\<rparr>)"

definition handleAutoDestPointDrag :: "Point \<Rightarrow> nat \<Rightarrow> Editor \<Rightarrow> Editor" where
  "handleAutoDestPointDrag newPoint draggedIndex s =
     setDestPoints (replacePoint draggedIndex newPoint (destPoints s)) s"

text \<open>
  \<^verbatim>\<open>if (pinningStep % 2 !== 0) return;\<close> comes before any state is touched (the cursor
  styling of \<^verbatim>\<open>document.body\<close> is not modelled).
\<close>

definition handleSourcePointMouseDown :: "nat \<Rightarrow> Editor \<Rightarrow> Editor" where
  "handleSourcePointMouseDown index s =
     (if pinningStep s mod 2 \<noteq> 0 then s
      else s\<lparr>draggingSourcePointIndex := Some index\<rparr>)"

text \<open>
  The \<^verbatim>\<open>mousemove\<close> and \<^verbatim>\<open>mouseup\<close> listeners of the effect that drags source
  points.  (\<^verbatim>\<open>!overlayPreviewGeom\<close> is never true.)
\<close>

definition handleSourceMouseMove :: "MouseEvent \<Rightarrow> Editor \<Rightarrow> Editor" where
  "handleSourceMouseMove e s =
     (case (draggingSourcePointIndex s, overlayPreviewRef s, overlayImageSize s) of
        (Some index, Some rect, Some overlaySize) \<Rightarrow>
          (let geom = overlayPreviewGeom s;
               clickX = max (geom_x geom) (min (clientX e - rect_left rect) (geom_x geom + geom_width geom));
               clickY = max (geom_y geom) (min (clientY e - rect_top rect) (geom_y geom + geom_height geom));
               relativeX = clickX - geom_x geom;
               relativeY = clickY - geom_y geom;
               newPoint = \<lparr>px = (relativeX / geom_width geom) * size_width overlaySize,
                            py = (relativeY / geom_height geom) * size_height overlaySize\<rparr>
           in setSourcePoints (replacePoint index newPoint (sourcePoints s)) s)
      | _ \<Rightarrow> s)"

definition handleSourceMouseUp :: "Editor \<Rightarrow> Editor" where
  "handleSourceMouseUp s =
     (case draggingSourcePointIndex s of
        None \<Rightarrow> s
      | Some index \<Rightarrow> s\<lparr>draggingSourcePointIndex := None\<rparr>)"

text \<open>
  \<^verbatim>\<open>handleAutoPinClick\<close>.  For a click on the thumbnail the bounds of the displayed image
  are tested before the point is built; for a click on the main container
  (\<^verbatim>\<open>e.currentTarget\<close>) the point is the click position relative to the container.
\<close>

definition handleAutoPinClick :: "MouseEvent \<Rightarrow> PinTarget \<Rightarrow> Editor \<Rightarrow> Editor" where
  "handleAutoPinClick e target s =
     (if pinningStep s \<ge> 8 then s
      else if target = Source \<and> overlayPreviewRef s \<noteq> None \<and> overlayImageSize s \<noteq> None then
        (case (overlayPreviewRef s, overlayImageSize s) of
           (Some rect, Some overlaySize) \<Rightarrow>
             (let geom = overlayPreviewGeom s;
                  clickX = clientX e - rect_left rect;
                  clickY = clientY e - rect_top rect
              in if clickX < geom_x geom \<or> clickX > geom_x geom + geom_width geom
                    \<or> clickY < geom_y geom \<or> clickY > geom_y geom + geom_height geom
                 then s
                 else
                   (let relativeX = clickX - geom_x geom;
                        relativeY = clickY - geom_y geom;
                        point = \<lparr>px = (relativeX / geom_width geom) * size_width overlaySize,
                                 py = (relativeY / geom_height geom) * size_height overlaySize\<rparr>
                    in if pinningStep s mod 2 = 0
                       then (setSourcePoints (sourcePoints s @ [point]) s)\<lparr>pinningStep := pinningStep s + 1\<rparr>
                       else s))
         | _ \<Rightarrow> s)
      else if target = Dest then
        (let rect = containerDom s;
             point = \<lparr>px = clientX e - rect_left rect, py = clientY e - rect_top rect\<rparr>
         in if pinningStep s mod 2 \<noteq> 0
            then (setDestPoints (destPoints s @ [point]) s)\<lparr>pinningStep := pinningStep s + 1\<rparr>
            else s)
      else s)"

definition handleContainerClick :: "MouseEvent \<Rightarrow> Editor \<Rightarrow> Editor" where
  "handleContainerClick e s =
     (if editMode s \<noteq> Auto \<or> pinningStep s mod 2 = 0 \<or> pinningStep s \<ge> 8 then s
      else if overlayPreviewRef s \<noteq> None \<and> targetInPreview e then s
      else handleAutoPinClick e Dest s)"

text \<open>
  The Clear Pins button:
  \<^verbatim>\<open>setSourcePoints([]); setDestPoints([]); setPinningStep(0);\<close>
\<close>

definition handleClearPins :: "Editor \<Rightarrow> Editor" where
  "handleClearPins s = (setDestPoints [] (setSourcePoints [] s))\<lparr>pinningStep := 0\<rparr>"

text \<open>
  The callbacks that bring geometry in: the \<^verbatim>\<open>ResizeObserver\<close> of the container, the
  \<^verbatim>\<open>onload\<close> of the field photo (which needs a container rectangle) and the
  \<^verbatim>\<open>onload\<close> of the overlay image.
\<close>

definition handleContainerResized :: "DomRect \<Rightarrow> DomRect \<Rightarrow> Editor \<Rightarrow> Editor" where
  "handleContainerResized container preview s =
     setContainerRect container (s\<lparr>containerDom := container, previewDom := preview\<rparr>)"

definition handleFieldPhotoLoaded :: "real \<Rightarrow> real \<Rightarrow> Editor \<Rightarrow> Editor" where
  "handleFieldPhotoLoaded naturalWidth naturalHeight s =
     (case containerRect s of
        None \<Rightarrow> s
      | Some rect \<Rightarrow>
          setImageRenderGeom
            (calculateObjectContainGeometry (rect_width rect) (rect_height rect) naturalWidth naturalHeight) s)"

definition handleOverlayImageLoaded :: "real \<Rightarrow> real \<Rightarrow> Editor \<Rightarrow> Editor" where
  "handleOverlayImageLoaded naturalWidth naturalHeight s =
     setOverlayImageSize \<lparr>size_width = naturalWidth, size_height = naturalHeight\<rparr> s"

subsection \<open>Effects\<close>

text \<open>
  An effect reads the state of the render it belongs to (\<open>render\<close>) and calls setters;
  the setter calls of all effects of one render are applied in order (\<open>s\<close> is the state
  they have built so far).  In source order: the thumbnail geometry, the scale effect,
  the manual-mode source points, the clearing on entering Auto Pin mode, the transform.
\<close>

definition effectPreviewGeom :: "Editor \<Rightarrow> Editor \<Rightarrow> Editor" where
  "effectPreviewGeom render s =
     (case (overlayPreviewRef render, overlayImageSize render) of
        (Some previewRect, Some overlaySize) \<Rightarrow>
          s\<lparr>overlayPreviewGeom :=
               calculateObjectContainGeometry (rect_width previewRect) (rect_height previewRect)
                 (size_width overlaySize) (size_height overlaySize)\<rparr>
      | _ \<Rightarrow> s)"

definition effectScale :: "Editor \<Rightarrow> Editor \<Rightarrow> Editor" where
  "effectScale render s =
     (if editMode render = Manual \<and> geom_width (imageRenderGeom render) > 0
         \<and> overlayImageSize render \<noteq> None \<and> \<not> isManuallyAdjusted render
      then updatePointsForScale (manualScale render) render s
      else s)"

definition effectManualSource :: "Editor \<Rightarrow> Editor \<Rightarrow> Editor" where
  "effectManualSource render s =
     (case overlayImageSize render of
        Some overlaySize \<Rightarrow>
          if editMode render = Manual
          then setSourcePoints
                 [\<lparr>px = 0, py = 0\<rparr>, \<lparr>px = size_width overlaySize, py = 0\<rparr>,
                  \<lparr>px = size_width overlaySize, py = size_height overlaySize\<rparr>, \<lparr>px = 0, py = size_height overlaySize\<rparr>] s
          else s
      | None \<Rightarrow> s)"

definition effectClearOnAuto :: "Editor \<Rightarrow> Editor \<Rightarrow> Editor" where
  "effectClearOnAuto render s =
     (if editMode render = Auto then setDestPoints [] (setSourcePoints [] s) else s)"

definition effectTransform :: "Editor \<Rightarrow> Editor \<Rightarrow> Editor" where
  "effectTransform render s =
     (if length (destPoints render) = 4 \<and> length (sourcePoints render) = 4 \<and> overlayImageSize render \<noteq> None
      then s\<lparr>transform := getPerspectiveTransform (sourcePoints render) (destPoints render)\<rparr>
      else s\<lparr>transform := None\<rparr>)"

text \<open>
  The effects of the render \<open>render\<close> that follows the render \<open>prev\<close>: each runs when one
  of its dependencies differs.  Only the transform effect depends on what effects set, so
  a second render runs it once more when the first round changed the points.
\<close>

definition runWhen :: "bool \<Rightarrow> (Editor \<Rightarrow> Editor) \<Rightarrow> Editor \<Rightarrow> Editor" where
  "runWhen changed effect s = (if changed then effect s else s)"

definition runEffects :: "Editor \<Rightarrow> Editor \<Rightarrow> Editor" where
  "runEffects prev render =
     (let s1 = runWhen (overlayImageSizeGen prev \<noteq> overlayImageSizeGen render
                        \<or> containerRectGen prev \<noteq> containerRectGen render)
                 (effectPreviewGeom render) render;
          s2 = runWhen (editMode prev \<noteq> editMode render
                        \<or> imageRenderGeomGen prev \<noteq> imageRenderGeomGen render
                        \<or> overlayImageSizeGen prev \<noteq> overlayImageSizeGen render
                        \<or> manualScale prev \<noteq> manualScale render
                        \<or> isManuallyAdjusted prev \<noteq> isManuallyAdjusted render)
                 (effectScale render) s1;
          s3 = runWhen (editMode prev \<noteq> editMode render
                        \<or> overlayImageSizeGen prev \<noteq> overlayImageSizeGen render)
                 (effectManualSource render) s2;
          s4 = runWhen (editMode prev \<noteq> editMode render)
                 (effectClearOnAuto render) s3;
          s5 = runWhen (destPointsGen prev \<noteq> destPointsGen render
                        \<or> sourcePointsGen prev \<noteq> sourcePointsGen render
                        \<or> overlayImageSizeGen prev \<noteq> overlayImageSizeGen render)
                 (effectTransform render) s4
      in runWhen (destPointsGen render \<noteq> destPointsGen s5 \<or> sourcePointsGen render \<noteq> sourcePointsGen s5)
           (effectTransform s5) s5)"

subsection \<open>Events\<close>

text \<open>
  What the user and the browser can do.  A handler is reachable only while its element
  is rendered: the draggable destination points (one per point; manual or auto handler
  by mode), the source points on the thumbnail and the Clear Pins button in Auto Pin
  mode, the scale slider and Reset Points in manual mode.  The window listeners of a
  source-point drag exist while \<^verbatim>\<open>draggingSourcePointIndex\<close> is set.

  A \<^verbatim>\<open>DraggablePoint\<close> reports a mouse move, while it is held, as
  \<^verbatim>\<open>onDrag({ x: moveEvent.clientX - rect.left, y: moveEvent.clientY - rect.top })\<close> with
  \<^verbatim>\<open>rect\<close> the \<^verbatim>\<open>containerRect\<close> it was given, and does nothing without one.  Which
  point is held is private to the component (\<^verbatim>\<open>isDraggingRef\<close>) and not tracked: the
  model admits a drag move of any rendered point at any time, which covers every real
  drag.  The colour-filter pass ends with \<^verbatim>\<open>setProcessedOverlayUrl(dataUrl)\<close>.
\<close>

definition draggedPoint :: "DomRect \<Rightarrow> MouseEvent \<Rightarrow> Point" where
  "draggedPoint rect moveEvent =
     \<lparr>px = clientX moveEvent - rect_left rect, py = clientY moveEvent - rect_top rect\<rparr>"

datatype Event =
    ModeChange EditMode
  | ManualScaleChange real
  | ResetPoints
  | DestPointDragStart nat
  | DestPointDrag nat MouseEvent
  | DestPointDragEnd
  | SourcePointMouseDown nat
  | WindowMouseMove MouseEvent
  | WindowMouseUp
  | PreviewClick MouseEvent
  | ContainerClick MouseEvent
  | ClearPins
  | ContainerResized DomRect DomRect
  | FieldPhotoLoaded real real
  | OverlayImageLoaded real real
  | OverlayProcessed string
  | SaveWithOverlayToggled bool

fun handle :: "Event \<Rightarrow> Editor \<Rightarrow> Editor" where
  "handle (ModeChange mode) s = handleModeChange mode s"
| "handle (ManualScaleChange newScale) s =
     (if editMode s = Manual then handleManualScaleChange newScale s else s)"
| "handle ResetPoints s = (if editMode s = Manual then handleResetPoints s else s)"
| "handle (DestPointDragStart i) s =
     (if i < length (destPoints s) then s\<lparr>draggingPointIndex := Some i\<rparr> else s)"
| "handle (DestPointDrag i e) s =
     (if i < length (destPoints s)
      then (case containerRect s of
              None \<Rightarrow> s
            | Some rect \<Rightarrow>
                (case editMode s of
                   Manual \<Rightarrow> handleManualPointDrag (draggedPoint rect e) i s
                 | Auto \<Rightarrow> handleAutoDestPointDrag (draggedPoint rect e) i s))
      else s)"
| "handle DestPointDragEnd s = s\<lparr>draggingPointIndex := None\<rparr>"
| "handle (SourcePointMouseDown i) s =
     (if editMode s = Auto \<and> i < length (sourcePoints s) then handleSourcePointMouseDown i s else s)"
| "handle (WindowMouseMove e) s =
     (if draggingSourcePointIndex s \<noteq> None then handleSourceMouseMove e s else s)"
| "handle WindowMouseUp s =
     (if draggingSourcePointIndex s \<noteq> None then handleSourceMouseUp s else s)"
| "handle (PreviewClick e) s = (if editMode s = Auto then handleAutoPinClick e Source s else s)"
| "handle (ContainerClick e) s = handleContainerClick e s"
| "handle ClearPins s = (if editMode s = Auto then handleClearPins s else s)"
| "handle (ContainerResized container preview) s = handleContainerResized container preview s"
| "handle (FieldPhotoLoaded naturalWidth naturalHeight) s = handleFieldPhotoLoaded naturalWidth naturalHeight s"
| "handle (OverlayImageLoaded naturalWidth naturalHeight) s = handleOverlayImageLoaded naturalWidth naturalHeight s"
| "handle (OverlayProcessed dataUrl) s = s\<lparr>processedOverlayUrl := Some dataUrl\<rparr>"
| "handle (SaveWithOverlayToggled checked) s = s\<lparr>saveWithOverlay := checked\<rparr>"

definition dispatch :: "Event \<Rightarrow> Editor \<Rightarrow> Editor" where
  "dispatch ev s = runEffects s (handle ev s)"

fun run :: "Event list \<Rightarrow> Editor \<Rightarrow> Editor" where
  "run [] s = s"
| "run (ev # evs) s = run evs (dispatch ev s)"

section \<open>Export\<close>

text \<open>
  \<^verbatim>\<open>handleSave\<close> runs asynchronously against the browser: it reads the EXIF block of the
  field photo (failure is logged and gives \<^verbatim>\<open>null\<close>), loads the photo into an image,
  asks for a 2D canvas context, and for an export with overlay builds an SVG image of
  the warped overlay and draws it on the canvas.  What the browser answers is the
  environment of the model; what the user gets, an \<^verbatim>\<open>alert\<close> or a download, is its
  result.  \<^verbatim>\<open>compositingThrows\<close> stands for an exception inside the \<^verbatim>\<open>try\<close> block
  of \<^verbatim>\<open>svgImage.onload\<close>.
\<close>

datatype SaveAction = Alert string | Download string

record SaveEnv =
  exifBytes :: "string option"
  bgImageLoads :: bool
  naturalWidth :: real
  naturalHeight :: real
  contextAcquired :: bool
  blobCreated :: bool
  svgImageLoads :: bool
  compositingThrows :: bool

text \<open>
  \<^verbatim>\<open>const scale = bgImage.naturalWidth / imageRenderGeom.width;\<close>
  \<^verbatim>\<open>destPoints.map(p => ({ x: (p.x - imageRenderGeom.x) * scale, y: (p.y - imageRenderGeom.y) * scale }))\<close>
\<close>

definition finalDestPoints :: "SaveEnv \<Rightarrow> Editor \<Rightarrow> Point list" where
  "finalDestPoints env s =
     (let scale = naturalWidth env / geom_width (imageRenderGeom s)
      in map (\<lambda>p. \<lparr>px = (px p - geom_x (imageRenderGeom s)) * scale,
                     py = (py p - geom_y (imageRenderGeom s)) * scale\<rparr>) (destPoints s))"

definition handleSave :: "SaveEnv \<Rightarrow> Editor \<Rightarrow> SaveAction list" where
  "handleSave env s =
     (if \<not> bgImageLoads env then [Alert ''Failed to load background image for saving.'']
      else if \<not> contextAcquired env \<or> overlayImageSize s = None
        then [Alert ''Could not prepare image for saving. Missing context or dimensions.'']
      else if \<not> saveWithOverlay s then
        (if exifBytes env \<noteq> None then [Download ''landviewer-original.jpeg'']
         else if blobCreated env then [Download ''landviewer-original.jpeg'']
         else [Alert ''Failed to create image blob.''])
      else if processedOverlayUrl s = None then [Alert ''Overlay image is not ready. Please wait.'']
      else if length (finalDestPoints env s) < 4 \<or> length (sourcePoints s) < 4
        then [Alert ''Please align the overlay before saving.'']
      else if getPerspectiveTransform (sourcePoints s) (finalDestPoints env s) = None
        then [Alert ''Could not calculate final transform for saving.'']
      else if \<not> svgImageLoads env then [Alert ''An error occurred while preparing the overlay for saving.'']
      else if compositingThrows env then [Alert ''An error occurred while saving the image.'']
      else if exifBytes env \<noteq> None then [Download ''landviewer-result.jpeg'']
      else if blobCreated env then [Download ''landviewer-result.jpeg'']
      else [Alert ''Failed to create final image blob.''])"

section \<open>Notions used to state and prove the properties\<close>

subsection \<open>Solver\<close>

text \<open>
  One round of the outer loop without the threshold test.  The pivot magnitude of round
  \<open>i\<close> is the largest magnitude among the entries of column \<open>i\<close> in the rows \<open>i\<close> to
  \<open>n - 1\<close> of the matrix that the rounds before \<open>i\<close> produce: partial pivoting brings an
  entry of that magnitude to the diagonal.
\<close>

definition eliminationStep :: "nat \<Rightarrow> nat \<Rightarrow> matrix \<Rightarrow> matrix" where
  "eliminationStep n i augmentedMatrix =
     eliminateBelow n i (swapRows augmentedMatrix i (findMaxRow augmentedMatrix n i))"

definition largestInColumn :: "nat \<Rightarrow> nat \<Rightarrow> matrix \<Rightarrow> real" where
  "largestInColumn n i augmentedMatrix = Max ((\<lambda>k. \<bar>augmentedMatrix ! k ! i\<bar>) ` {i..<n})"

definition pivotMagnitude :: "nat \<Rightarrow> nat \<Rightarrow> matrix \<Rightarrow> real" where
  "pivotMagnitude n i augmentedMatrix =
     largestInColumn n i (fold (eliminationStep n) [0..<i] augmentedMatrix)"

text \<open>The threshold test of round \<open>i\<close> on the matrix \<open>M\<close> that the round starts from.\<close>

definition pivotTooSmall :: "nat \<Rightarrow> nat \<Rightarrow> matrix \<Rightarrow> bool" where
  "pivotTooSmall n i M \<longleftrightarrow> \<bar>swapRows M i (findMaxRow M n i) ! i ! i\<bar> < pivotThreshold"






text \<open>
  The range of coordinates for which the properties of the solver are stated: magnitude
  at most \<open>C\<close>, and at most \<open>2^20\<close> throughout.
\<close>

definition coordinatesWithin :: "real \<Rightarrow> Point list \<Rightarrow> bool" where
  "coordinatesWithin C ps \<longleftrightarrow> list_all (\<lambda>p. \<bar>px p\<bar> \<le> C \<and> \<bar>py p\<bar> \<le> C) ps"

definition inPixelRange :: "Point list \<Rightarrow> bool" where
  "inPixelRange ps \<longleftrightarrow> coordinatesWithin (2 ^ 20) ps"




text \<open>
  Collinearity of three points, and "three or more of the four points of a sequence are
  collinear", for the degeneracy claim.
\<close>

definition collinear :: "Point \<Rightarrow> Point \<Rightarrow> Point \<Rightarrow> bool" where
  "collinear p q r \<longleftrightarrow> (px q - px p) * (py r - py p) = (py q - py p) * (px r - px p)"

definition threeCollinear :: "Point list \<Rightarrow> bool" where
  "threeCollinear ps \<longleftrightarrow>
     collinear (ps ! 0) (ps ! 1) (ps ! 2) \<or> collinear (ps ! 0) (ps ! 1) (ps ! 3)
     \<or> collinear (ps ! 0) (ps ! 2) (ps ! 3) \<or> collinear (ps ! 1) (ps ! 2) (ps ! 3)"

subsection \<open>Colour filter\<close>

text \<open>
  The filter as the specification words it, on one pixel given as its four channel
  values.  A rule matches a pixel when its colour parses and the Euclidean RGB distance
  is strictly below the tolerance scaled by 2.55.
\<close>

definition ruleMatches :: "Rgb \<Rightarrow> ColorFilter \<Rightarrow> bool" where
  "ruleMatches pixelRgb f =
     (case hexToRgb (color f) of
        None \<Rightarrow> False
      | Some c \<Rightarrow> colorDistance pixelRgb c < tolerance f * (255 / 100))"

definition ruleColor :: "ColorFilter \<Rightarrow> Rgb" where
  "ruleColor f = (case hexToRgb (color f) of Some c \<Rightarrow> c | None \<Rightarrow> \<lparr>rgb_r = 0, rgb_g = 0, rgb_b = 0\<rparr>)"

definition filterPixel :: "ColorFilters \<Rightarrow> nat \<times> nat \<times> nat \<times> nat \<Rightarrow> nat \<times> nat \<times> nat \<times> nat" where
  "filterPixel filters = (\<lambda>(r, g, b, a).
     let pixelRgb = \<lparr>rgb_r = r, rgb_g = g, rgb_b = b\<rparr>
     in if list_ex (ruleMatches pixelRgb) (removeFilters filters) then (r, g, b, 0)
        else if keepFilters filters \<noteq> []
             then (case find (ruleMatches pixelRgb) (keepFilters filters) of
                     Some f \<Rightarrow> (rgb_r (ruleColor f), rgb_g (ruleColor f), rgb_b (ruleColor f), 255)
                   | None \<Rightarrow> (r, g, b, 0))
             else (r, g, b, a))"

text \<open>The four channel values of pixel number \<open>p\<close> of a buffer.\<close>

definition pixelAt :: "byte list \<Rightarrow> nat \<Rightarrow> nat \<times> nat \<times> nat \<times> nat" where
  "pixelAt data p =
     (unat (data ! (4 * p)), unat (data ! (4 * p + 1)), unat (data ! (4 * p + 2)), unat (data ! (4 * p + 3)))"

text \<open>
  The side condition of the amended idempotence claim: no keep rule's target colour is
  matched by a remove rule or by an earlier keep rule.
\<close>

definition noClash :: "ColorFilters \<Rightarrow> bool" where
  "noClash filters =
     list_all (\<lambda>(k, f). case hexToRgb (color f) of
                  None \<Rightarrow> True
                | Some c \<Rightarrow> \<not> list_ex (ruleMatches c) (removeFilters filters)
                          \<and> \<not> list_ex (ruleMatches c) (take k (keepFilters filters)))
              (enumerate 0 (keepFilters filters))"


text \<open>
  The rules as the specification has them: a colour that is an RGB triple and a
  tolerance, with no reference to the parsing of colour strings.  A pixel matches a rule
  when the Euclidean distance between its RGB triple and the rule's is strictly below
  the tolerance scaled by 2.55.
\<close>

record ColorRule =
  rule_r :: byte
  rule_g :: byte
  rule_b :: byte
  rule_tolerance :: real

definition euclideanDistance :: "nat \<times> nat \<times> nat \<Rightarrow> nat \<times> nat \<times> nat \<Rightarrow> real" where
  "euclideanDistance = (\<lambda>(r, g, b) (r', g', b').
     sqrt ((real r - real r') ^ 2 + (real g - real g') ^ 2 + (real b - real b') ^ 2))"

definition matchesRule :: "nat \<times> nat \<times> nat \<Rightarrow> ColorRule \<Rightarrow> bool" where
  "matchesRule rgb rule \<longleftrightarrow>
     euclideanDistance rgb (unat (rule_r rule), unat (rule_g rule), unat (rule_b rule))
       < rule_tolerance rule * 2.55"

text \<open>
  The three steps of the specification on one pixel \<open>(r, g, b, a)\<close>: a matching remove
  rule makes it transparent; otherwise, with a non-empty keep list, the first matching
  keep rule recolours it at full opacity and no match makes it transparent; otherwise
  it passes through.
\<close>

definition filteredPixel :: "ColorRule list \<Rightarrow> ColorRule list \<Rightarrow> nat \<times> nat \<times> nat \<times> nat \<Rightarrow> nat \<times> nat \<times> nat \<times> nat" where
  "filteredPixel removeRules keepRules = (\<lambda>(r, g, b, a).
     if list_ex (matchesRule (r, g, b)) removeRules then (r, g, b, 0)
     else if keepRules \<noteq> []
          then (case find (matchesRule (r, g, b)) keepRules of
                  Some rule \<Rightarrow> (unat (rule_r rule), unat (rule_g rule), unat (rule_b rule), 255)
                | None \<Rightarrow> (r, g, b, 0))
          else (r, g, b, a))"

text \<open>
  How a rule's colour is written in a \<^verbatim>\<open>ColorFilter\<close>: six hexadecimal digits, two per
  channel, in lower case (what the colour picker delivers) or in upper case, with or
  without a leading \<open>#\<close> (the text field beside the picker takes any of these).
\<close>

definition hexDigitChar :: "bool \<Rightarrow> nat \<Rightarrow> char" where
  "hexDigitChar upper d = (if upper then ''0123456789ABCDEF'' else ''0123456789abcdef'') ! d"

definition hexByte :: "bool \<Rightarrow> byte \<Rightarrow> string" where
  "hexByte upper v = [hexDigitChar upper (unat v div 16), hexDigitChar upper (unat v mod 16)]"

definition hexColor :: "bool \<Rightarrow> bool \<Rightarrow> ColorRule \<Rightarrow> string" where
  "hexColor hash upper rule =
     (if hash then ''#'' else []) @ hexByte upper (rule_r rule) @ hexByte upper (rule_g rule) @ hexByte upper (rule_b rule)"

definition writtenAs :: "ColorRule \<Rightarrow> ColorFilter \<Rightarrow> bool" where
  "writtenAs rule f \<longleftrightarrow>
     tolerance f = rule_tolerance rule
     \<and> (color f = hexColor True False rule \<or> color f = hexColor True True rule
        \<or> color f = hexColor False False rule \<or> color f = hexColor False True rule)"

subsection \<open>Editor\<close>

text \<open>
  A position (relative to an element) lies outside the rectangle in which an image is
  displayed: the test of \<^verbatim>\<open>handleAutoPinClick\<close> for clicks on the thumbnail.
\<close>

definition outsideGeom :: "ImageGeom \<Rightarrow> real \<Rightarrow> real \<Rightarrow> bool" where
  "outsideGeom geom clickX clickY \<longleftrightarrow>
     clickX < geom_x geom \<or> clickX > geom_x geom + geom_width geom
     \<or> clickY < geom_y geom \<or> clickY > geom_y geom + geom_height geom"

text \<open>
  The point of the overlay image under the mouse, clamped to the displayed image: what a
  source-point drag moves the point to.
\<close>

definition draggedSourcePoint :: "MouseEvent \<Rightarrow> Editor \<Rightarrow> ImageSize \<Rightarrow> Point" where
  "draggedSourcePoint e s overlaySize =
     (let geom = overlayPreviewGeom s;
          clickX = max (geom_x geom) (min (clientX e - rect_left (previewDom s)) (geom_x geom + geom_width geom));
          clickY = max (geom_y geom) (min (clientY e - rect_top (previewDom s)) (geom_y geom + geom_height geom))
      in \<lparr>px = ((clickX - geom_x geom) / geom_width geom) * size_width overlaySize,
          py = ((clickY - geom_y geom) / geom_height geom) * size_height overlaySize\<rparr>)"

text \<open>
  The events that leave the manually-adjusted flag alone, and the destination points
  that the drags among a list of events produce on their own (a drag reports positions
  relative to the container rectangle of the moment).
\<close>

fun keepsAdjustment :: "Event \<Rightarrow> bool" where
  "keepsAdjustment (ModeChange mode) = False"
| "keepsAdjustment (ManualScaleChange newScale) = False"
| "keepsAdjustment ResetPoints = False"
| "keepsAdjustment ev = True"

fun dragsOnly :: "Event list \<Rightarrow> DomRect option \<Rightarrow> Point list \<Rightarrow> Point list" where
  "dragsOnly [] rect ps = ps"
| "dragsOnly (DestPointDrag i e # evs) None ps = dragsOnly evs None ps"
| "dragsOnly (DestPointDrag i e # evs) (Some rect) ps =
     dragsOnly evs (Some rect) (replacePoint i (draggedPoint rect e) ps)"
| "dragsOnly (ContainerResized container preview # evs) rect ps = dragsOnly evs (Some container) ps"
| "dragsOnly (ev # evs) rect ps = dragsOnly evs rect ps"

text \<open>The relation between the step counter and the two sequences in Auto Pin mode.\<close>

definition pinInvariant :: "Editor \<Rightarrow> bool" where
  "pinInvariant s \<longleftrightarrow>
     length (sourcePoints s) = (pinningStep s + 1) div 2 \<and> length (destPoints s) = pinningStep s div 2"

text \<open>
  Concrete runs for the examples: a page with a 400 by 400 container and a 200 by 200
  thumbnail at (16, 16), an overlay image of 100 by 200 and a field photo of 100 by 200
  (displayed at offset (100, 0) with size 200 by 400, the thumbnail image at offset
  (50, 0) with size 100 by 200).  \<open>pinningStarted\<close> has just entered Auto Pin mode;
  \<open>afterFirstPin\<close> has accepted the first click on the thumbnail.  \<open>afterManualDrag\<close>
  is in manual mode (overlay 100 by 100, field photo 400 by 400) after the user dragged
  the first destination point to (7, 7).
\<close>

definition exampleContainer :: DomRect where
  "exampleContainer = \<lparr>rect_left = 0, rect_top = 0, rect_width = 400, rect_height = 400\<rparr>"

definition examplePreview :: DomRect where
  "examplePreview = \<lparr>rect_left = 16, rect_top = 16, rect_width = 200, rect_height = 200\<rparr>"

definition pinningStarted :: Editor where
  "pinningStarted =
     run [OverlayImageLoaded 100 200,
          ContainerResized exampleContainer examplePreview,
          FieldPhotoLoaded 100 200,
          ModeChange Auto,
          ContainerResized exampleContainer examplePreview]
         (initialEditor exampleContainer examplePreview)"

definition afterFirstPin :: Editor where
  "afterFirstPin = dispatch (PreviewClick \<lparr>clientX = 76, clientY = 26, targetInPreview = True\<rparr>) pinningStarted"

definition afterManualDrag :: Editor where
  "afterManualDrag =
     run [OverlayImageLoaded 100 100,
          ContainerResized exampleContainer examplePreview,
          FieldPhotoLoaded 400 400,
          DestPointDrag 0 \<lparr>clientX = 7, clientY = 7, targetInPreview = False\<rparr>]
         (initialEditor exampleContainer examplePreview)"

text \<open>\<open>afterFirstPair\<close>: Auto Pin mode after the first source click and a destination click at (10, 10).\<close>

definition afterFirstPair :: Editor where
  "afterFirstPair = dispatch (ContainerClick \<lparr>clientX = 10, clientY = 10, targetInPreview = False\<rparr>) afterFirstPin"


text \<open>
  The rectangle in which the overlay image is displayed inside the thumbnail element as
  the page lays it out now (\<^verbatim>\<open>object-contain\<close>), and the states of Auto Pin mode in
  which the state variable \<^verbatim>\<open>overlayPreviewGeom\<close> holds that rectangle.  The effect that
  computes the variable has the dependencies \<^verbatim>\<open>[overlayImageSize, containerRect]\<close>, so it
  runs when one of these changes and not when the mode changes.  \<open>pinningJustEntered\<close>
  is the example page right after the switch to Auto Pin mode.
\<close>

definition displayedOverlayRect :: "Editor \<Rightarrow> ImageSize \<Rightarrow> ImageGeom" where
  "displayedOverlayRect s overlaySize =
     calculateObjectContainGeometry (rect_width (previewDom s)) (rect_height (previewDom s))
       (size_width overlaySize) (size_height overlaySize)"

definition previewGeomCurrent :: "Editor \<Rightarrow> bool" where
  "previewGeomCurrent s \<longleftrightarrow>
     editMode s = Auto
     \<and> (case overlayImageSize s of
          None \<Rightarrow> True
        | Some overlaySize \<Rightarrow> overlayPreviewGeom s = displayedOverlayRect s overlaySize)"

definition pinningJustEntered :: Editor where
  "pinningJustEntered =
     run [OverlayImageLoaded 100 200,
          ContainerResized exampleContainer examplePreview,
          FieldPhotoLoaded 100 200,
          ModeChange Auto]
         (initialEditor exampleContainer examplePreview)"

section \<open>Contain geometry\<close>






section \<open>Properties of the solver\<close>

subsection \<open>Rounding\<close>

lemma roundHalfEven_of_int: "roundHalfEven (of_int k) = k"
  by (simp add: roundHalfEven_def)

lemma roundHalfEven_error: "\<bar>of_int (roundHalfEven x) - x\<bar> \<le> 1 / 2"
proof -
  have "of_int \<lfloor>x\<rfloor> \<le> x" "x < of_int \<lfloor>x\<rfloor> + 1" by linarith+
  then show ?thesis
    by (auto simp: roundHalfEven_def Let_def)
qed

lemma toDouble_zero: "toDouble 0 = 0"
  by (simp add: toDouble_def)

lemma toDouble_exact:
  assumes "x = of_int k * 2 powr of_int (ulpExponent x)"
  shows "toDouble x = x"
proof (cases "x = 0")
  case True
  then show ?thesis by (simp add: toDouble_def)
next
  case False
  have "x / 2 powr of_int (ulpExponent x) = of_int k"
    by (subst assms) simp
  then show ?thesis
    using False assms by (simp add: toDouble_def roundHalfEven_of_int)
qed

lemma ulpExponent_int:
  assumes "z \<noteq> 0" "\<bar>z\<bar> < 2 ^ 53"
  shows "ulpExponent (of_int z) \<le> 0"
proof -
  have pos: "0 < \<bar>real_of_int z\<bar>" using assms(1) by simp
  have "\<bar>real_of_int z\<bar> < 2 ^ 53" using assms(2)
    by (metis of_int_abs of_int_less_numeral_power_cancel_iff)
  then have "\<bar>real_of_int z\<bar> < 2 powr 53" by simp
  then have "log 2 \<bar>real_of_int z\<bar> < 53"
    using pos by (subst log_less_iff) simp_all
  then have "\<lfloor>log 2 \<bar>real_of_int z\<bar>\<rfloor> < 53" by linarith
  then show ?thesis by (simp add: ulpExponent_def)
qed

lemma toDouble_of_int:
  assumes "\<bar>z\<bar> < 2 ^ 53"
  shows "toDouble (of_int z) = of_int z"
proof (cases "z = 0")
  case True
  then show ?thesis by (simp add: toDouble_zero)
next
  case False
  define e where "e = ulpExponent (of_int z)"
  have e: "e \<le> 0" unfolding e_def using False assms by (rule ulpExponent_int)
  have p: "2 powr real_of_int e = 1 / 2 ^ nat (- e)"
    using e by (simp add: powr_real_of_int field_simps)
  have "real_of_int z = of_int (z * 2 ^ nat (- e)) * 2 powr of_int e"
    unfolding p by simp
  then show ?thesis
    unfolding e_def by (rule toDouble_exact)
qed

lemma toDouble_numeral [simp]:
  "\<bar>numeral n :: int\<bar> < 2 ^ 53 \<Longrightarrow> toDouble (numeral n) = numeral n"
  "\<bar>numeral n :: int\<bar> < 2 ^ 53 \<Longrightarrow> toDouble (- numeral n) = - numeral n"
  "toDouble 1 = 1" "toDouble (- 1) = - 1"
  using toDouble_of_int [of "numeral n"] toDouble_of_int [of "- numeral n"]
    toDouble_of_int [of 1] toDouble_of_int [of "- 1"]
  by simp_all

lemma floor_log2_le:
  assumes "x \<noteq> 0"
  shows "2 powr of_int \<lfloor>log 2 \<bar>x\<bar>\<rfloor> \<le> \<bar>x\<bar>"
proof -
  have "2 powr of_int \<lfloor>log 2 \<bar>x\<bar>\<rfloor> \<le> 2 powr log 2 \<bar>x\<bar>"
    by (intro powr_mono) simp_all
  also have "\<dots> = \<bar>x\<bar>" using assms by simp
  finally show ?thesis .
qed

lemma toDouble_error:
  "\<bar>toDouble x - x\<bar> \<le> \<bar>x\<bar> / 2 ^ 53 + 1 / 2 ^ 1075"
proof (cases "x = 0")
  case True
  then show ?thesis by (simp add: toDouble_zero)
next
  case False
  define e where "e = ulpExponent x"
  define q where "q = 2 powr real_of_int e"
  have q: "0 < q" by (simp add: q_def)
  have "toDouble x - x = (of_int (roundHalfEven (x / q)) - x / q) * q"
    using False q by (simp add: toDouble_def e_def q_def field_simps)
  then have err: "\<bar>toDouble x - x\<bar> \<le> q / 2"
    using roundHalfEven_error [of "x / q"] q
    by (simp add: abs_mult)
  have "q \<le> \<bar>x\<bar> / 2 ^ 52 \<or> q = 1 / 2 ^ 1074"
  proof (cases "\<lfloor>log 2 \<bar>x\<bar>\<rfloor> - 52 \<ge> - 1074")
    case True
    then have "e = \<lfloor>log 2 \<bar>x\<bar>\<rfloor> - 52" by (simp add: e_def ulpExponent_def)
    then have "q = 2 powr of_int \<lfloor>log 2 \<bar>x\<bar>\<rfloor> / 2 ^ 52"
      by (simp add: q_def powr_diff) 
    then show ?thesis using floor_log2_le [OF False] by (simp add: field_simps)
  next
    case False
    then have "e = - 1074" by (simp add: e_def ulpExponent_def)
    then show ?thesis by (simp add: q_def powr_minus_divide)
  qed
  then show ?thesis
  proof
    assume "q \<le> \<bar>x\<bar> / 2 ^ 52"
    then have "q / 2 \<le> \<bar>x\<bar> / 2 ^ 53" by simp
    with err have "\<bar>toDouble x - x\<bar> \<le> \<bar>x\<bar> / 2 ^ 53" by (rule order_trans)
    moreover have "(0 :: real) \<le> 1 / 2 ^ 1075" by simp
    ultimately show ?thesis by (rule add_increasing2 [rotated])
  next
    assume "q = 1 / 2 ^ 1074"
    then have "q / 2 = 1 / 2 ^ 1075" by simp
    with err have "\<bar>toDouble x - x\<bar> \<le> 1 / 2 ^ 1075" by simp
    moreover have "0 \<le> \<bar>x\<bar> / 2 ^ 53" by simp
    ultimately show ?thesis by (rule add_increasing [rotated])
  qed
qed

subsection \<open>The inner loops as pointwise updates\<close>

lemma findMaxRow_fold_range:
  assumes "\<forall>k\<in>set ks. i \<le> k \<and> k < n" "i \<le> m" "m < n"
  shows "i \<le> fold (\<lambda>k maxRow. if \<bar>M ! k ! c\<bar> > \<bar>M ! maxRow ! c\<bar> then k else maxRow) ks m
       \<and> fold (\<lambda>k maxRow. if \<bar>M ! k ! c\<bar> > \<bar>M ! maxRow ! c\<bar> then k else maxRow) ks m < n"
  using assms by (induction ks arbitrary: m) auto

lemma findMaxRow_range:
  assumes "i < n"
  shows "i \<le> findMaxRow M n i" and "findMaxRow M n i < n"
  using findMaxRow_fold_range [of "[Suc i..<n]" i n i M i] assms
  by (auto simp: findMaxRow_def)

lemma swapRows_length: "length (swapRows M i m) = length M"
  by (simp add: swapRows_def)

lemma swapRows_nth:
  assumes "i < length M" "m < length M" "r < length M"
  shows "swapRows M i m ! r = (if r = m then M ! i else if r = i then M ! m else M ! r)"
  using assms by (auto simp: swapRows_def nth_list_update)

lemma fold_update_length:
  "length (fold (\<lambda>k ys. ys[k := h k ys]) ks xs) = length xs"
  by (induction ks arbitrary: xs) auto






lemma eliminateBelow_length: "length (eliminateBelow n i M) = length M"
  unfolding eliminateBelow_def by (rule fold_update_length)


subsection \<open>The pivot search and the threshold test\<close>

lemma findMaxRow_fold_max:
  fixes M :: matrix
  shows "\<bar>M ! m ! c\<bar> \<le> \<bar>M ! fold (\<lambda>k maxRow. if \<bar>M ! k ! c\<bar> > \<bar>M ! maxRow ! c\<bar> then k else maxRow) ks m ! c\<bar>
   \<and> (\<forall>k\<in>set ks. \<bar>M ! k ! c\<bar>
          \<le> \<bar>M ! fold (\<lambda>k maxRow. if \<bar>M ! k ! c\<bar> > \<bar>M ! maxRow ! c\<bar> then k else maxRow) ks m ! c\<bar>)"
proof (induction ks arbitrary: m)
  case Nil
  then show ?case by simp
next
  case (Cons k ks)
  let ?next = "if \<bar>M ! k ! c\<bar> > \<bar>M ! m ! c\<bar> then k else m"
  have "\<bar>M ! m ! c\<bar> \<le> \<bar>M ! ?next ! c\<bar>" "\<bar>M ! k ! c\<bar> \<le> \<bar>M ! ?next ! c\<bar>" by auto
  with Cons.IH [of ?next] show ?case
    by (auto simp del: abs_le_iff intro: order_trans)
qed

lemma findMaxRow_max:
  fixes M :: matrix
  assumes "i \<le> k" "k < n"
  shows "\<bar>M ! k ! i\<bar> \<le> \<bar>M ! findMaxRow M n i ! i\<bar>"
proof (cases "k = i")
  case True
  then show ?thesis
    using findMaxRow_fold_max [of M i i "[Suc i..<n]"] by (simp add: findMaxRow_def)
next
  case False
  then have "k \<in> set [Suc i..<n]" using assms by simp
  then show ?thesis
    using findMaxRow_fold_max [of M i i "[Suc i..<n]"] unfolding findMaxRow_def by blast
qed

lemma largestInColumn_pivot:
  assumes "i < n" "length M = n"
  shows "largestInColumn n i M = \<bar>swapRows M i (findMaxRow M n i) ! i ! i\<bar>"
proof -
  let ?m = "findMaxRow M n i"
  have m: "i \<le> ?m" "?m < n" using findMaxRow_range [OF assms(1)] by simp_all
  have row: "swapRows M i ?m ! i = M ! ?m"
    using assms m by (simp add: swapRows_nth)
  have "Max ((\<lambda>k. \<bar>M ! k ! i\<bar>) ` {i..<n}) = \<bar>M ! ?m ! i\<bar>"
  proof (rule Max_eqI)
    show "finite ((\<lambda>k. \<bar>M ! k ! i\<bar>) ` {i..<n})" by simp
    show "\<bar>M ! ?m ! i\<bar> \<in> (\<lambda>k. \<bar>M ! k ! i\<bar>) ` {i..<n}" using m by auto
    fix y assume "y \<in> (\<lambda>k. \<bar>M ! k ! i\<bar>) ` {i..<n}"
    then obtain k where "i \<le> k" "k < n" "y = \<bar>M ! k ! i\<bar>" by auto
    then show "y \<le> \<bar>M ! ?m ! i\<bar>" using findMaxRow_max [of i k n M] by simp
  qed
  then show ?thesis by (simp add: largestInColumn_def row)
qed

lemma pivotTooSmall_iff:
  assumes "i < n" "length M = n"
  shows "pivotTooSmall n i M \<longleftrightarrow> largestInColumn n i M < pivotThreshold"
  by (simp add: pivotTooSmall_def largestInColumn_pivot [OF assms])

lemma eliminationStep_length: "length (eliminationStep n i M) = length M"
  by (simp add: eliminationStep_def eliminateBelow_length swapRows_length)

lemma eliminationSteps_length: "length (fold (eliminationStep n) ks M) = length M"
  by (induction ks arbitrary: M) (simp_all add: eliminationStep_length)

lemma forwardElimination_Cons:
  "forwardElimination n (i # rest) M =
     (if pivotTooSmall n i M then None
      else forwardElimination n rest (eliminationStep n i M))"
  by (simp add: Let_def eliminationStep_def pivotTooSmall_def)

lemma forwardElimination_None_iff:
  "forwardElimination n ks M = None \<longleftrightarrow>
     (\<exists>p<length ks. pivotTooSmall n (ks ! p) (fold (eliminationStep n) (take p ks) M))"
proof (induction ks arbitrary: M)
  case Nil
  then show ?case by simp
next
  case (Cons k ks)
  have "forwardElimination n (k # ks) M = None \<longleftrightarrow>
        pivotTooSmall n k M \<or> forwardElimination n ks (eliminationStep n k M) = None"
    unfolding forwardElimination_Cons by simp
  also have "\<dots> \<longleftrightarrow> pivotTooSmall n k M
        \<or> (\<exists>p<length ks. pivotTooSmall n (ks ! p) (fold (eliminationStep n) (take p ks) (eliminationStep n k M)))"
    unfolding Cons.IH ..
  also have "\<dots> \<longleftrightarrow> (\<exists>p<length (k # ks).
        pivotTooSmall n ((k # ks) ! p) (fold (eliminationStep n) (take p (k # ks)) M))"
    unfolding length_Cons Ex_less_Suc2 by simp
  finally show ?case .
qed

lemma pivotMagnitude_small:
  assumes "i < n" "length M = n"
  shows "pivotMagnitude n i M < pivotThreshold
         \<longleftrightarrow> pivotTooSmall n ([0..<n] ! i) (fold (eliminationStep n) (take i [0..<n]) M)"
proof -
  have "length (fold (eliminationStep n) [0..<i] M) = n"
    using assms(2) by (simp add: eliminationSteps_length)
  from pivotTooSmall_iff [OF assms(1) this] show ?thesis
    using assms(1) by (simp add: pivotMagnitude_def take_upt)
qed

lemma augment_length: "length (augment A b) = length A"
  by (simp add: augment_def)

lemma solveSystem_None_iff:
  "solveSystem A b = None \<longleftrightarrow>
     (\<exists>i<length A. pivotMagnitude (length A) i (augment A b) < pivotThreshold)"
proof -
  have "solveSystem A b = None \<longleftrightarrow> forwardElimination (length A) [0..<length A] (augment A b) = None"
    by (simp add: solveSystem_def Let_def split: option.splits)
  also have "\<dots> \<longleftrightarrow> (\<exists>i<length A. pivotTooSmall (length A) ([0..<length A] ! i)
        (fold (eliminationStep (length A)) (take i [0..<length A]) (augment A b)))"
    unfolding forwardElimination_None_iff by simp
  also have "\<dots> \<longleftrightarrow> (\<exists>i<length A. pivotMagnitude (length A) i (augment A b) < pivotThreshold)"
    using pivotMagnitude_small [OF _ augment_length] by blast
  finally show ?thesis .
qed

lemma perspectiveSystem_explicit:
  "perspectiveSystem src dst =
     ([[px (src ! 0), py (src ! 0), 1, 0, 0, 0, toDouble (- px (src ! 0) * px (dst ! 0)), toDouble (- py (src ! 0) * px (dst ! 0))],
       [0, 0, 0, px (src ! 0), py (src ! 0), 1, toDouble (- px (src ! 0) * py (dst ! 0)), toDouble (- py (src ! 0) * py (dst ! 0))],
       [px (src ! 1), py (src ! 1), 1, 0, 0, 0, toDouble (- px (src ! 1) * px (dst ! 1)), toDouble (- py (src ! 1) * px (dst ! 1))],
       [0, 0, 0, px (src ! 1), py (src ! 1), 1, toDouble (- px (src ! 1) * py (dst ! 1)), toDouble (- py (src ! 1) * py (dst ! 1))],
       [px (src ! 2), py (src ! 2), 1, 0, 0, 0, toDouble (- px (src ! 2) * px (dst ! 2)), toDouble (- py (src ! 2) * px (dst ! 2))],
       [0, 0, 0, px (src ! 2), py (src ! 2), 1, toDouble (- px (src ! 2) * py (dst ! 2)), toDouble (- py (src ! 2) * py (dst ! 2))],
       [px (src ! 3), py (src ! 3), 1, 0, 0, 0, toDouble (- px (src ! 3) * px (dst ! 3)), toDouble (- py (src ! 3) * px (dst ! 3))],
       [0, 0, 0, px (src ! 3), py (src ! 3), 1, toDouble (- px (src ! 3) * py (dst ! 3)), toDouble (- py (src ! 3) * py (dst ! 3))]],
      [px (dst ! 0), py (dst ! 0), px (dst ! 1), py (dst ! 1), px (dst ! 2), py (dst ! 2), px (dst ! 3), py (dst ! 3)])"
  by (simp add: perspectiveSystem_def pushEquations_def Let_def upt_rec eval_nat_numeral)

lemma getPerspectiveTransform_None_iff:
  "getPerspectiveTransform src dst = None \<longleftrightarrow>
     length src \<noteq> 4 \<or> length dst \<noteq> 4
     \<or> (\<exists>i<8. pivotMagnitude 8 i
            (augment (fst (perspectiveSystem src dst)) (snd (perspectiveSystem src dst)))
          < pivotThreshold)"
proof -
  have len: "length (fst (perspectiveSystem src dst)) = 8"
    by (simp add: perspectiveSystem_explicit)
  have "getPerspectiveTransform src dst = None \<longleftrightarrow>
        length src \<noteq> 4 \<or> length dst \<noteq> 4
        \<or> solveSystem (fst (perspectiveSystem src dst)) (snd (perspectiveSystem src dst)) = None"
    by (auto simp: getPerspectiveTransform_def Let_def split_beta split: option.splits)
  then show ?thesis
    unfolding solveSystem_None_iff len .
qed

subsection \<open>The threshold as a double\<close>

lemma pivotThreshold_bounds: "1 / 10 ^ 10 < pivotThreshold" "pivotThreshold < 1 / 10 ^ 8"
  using toDouble_error [of "1 / 10 ^ 9"] unfolding pivotThreshold_def by (simp_all add: abs_if split: if_splits)

subsection \<open>Rounding errors of single operations\<close>

lemma toDouble_near: "\<bar>toDouble x - x\<bar> \<le> (\<bar>x\<bar> + 1) / 2 ^ 53"
proof -
  have "(1::real) / 2 ^ 1075 \<le> 1 / 2 ^ 53"
    by (intro divide_left_mono power_increasing) simp_all
  with toDouble_error [of x] show ?thesis
    by (simp add: add_divide_distrib)
qed

lemma toDouble_magnitude: "\<bar>toDouble x\<bar> \<le> \<bar>x\<bar> + (\<bar>x\<bar> + 1) / 2 ^ 53"
  using toDouble_near [of x] by linarith



subsection \<open>Residuals\<close>


subsection \<open>One round of the elimination, with its rounding errors\<close>






subsection \<open>The whole elimination\<close>


subsection \<open>Back substitution, with its rounding errors\<close>












subsection \<open>The solver as a whole\<close>




subsection \<open>The perspective system\<close>






subsection \<open>The round trip\<close>









subsection \<open>Runs on concrete points\<close>

lemma pivotThreshold_pos: "0 < pivotThreshold"
  using pivotThreshold_bounds(1) by (rule less_trans [rotated]) simp

lemma pivotThreshold_below_one: "pivotThreshold < 1"
  using pivotThreshold_bounds(2) by (rule less_trans) simp

lemma threshold_test [simp]:
  "(0 < pivotThreshold) = True"
  "1 \<le> \<bar>x\<bar> \<Longrightarrow> (\<bar>x\<bar> < pivotThreshold) = False"
  "(1 < pivotThreshold) = False"
  "(numeral n < pivotThreshold) = False"
proof -
  show "(0 < pivotThreshold) = True" using pivotThreshold_pos by simp
  show "1 \<le> \<bar>x\<bar> \<Longrightarrow> (\<bar>x\<bar> < pivotThreshold) = False"
    using pivotThreshold_below_one by auto
  show "(1 < pivotThreshold) = False" using pivotThreshold_below_one by auto
  show "(numeral n < pivotThreshold) = False"
    using less_trans [OF _ pivotThreshold_below_one, of "numeral n"] by auto
qed

lemmas solver_eval = findMaxRow_def swapRows_def eliminateBelow_def eliminateRow_def
  upt_rec Let_def eval_nat_numeral augment_def backStep_def backSubstitution_def solveSystem_def
  pushEquations_def perspectiveSystem_def getPerspectiveTransform_def toDouble_zero

lemma collinear_dest_solved:
  "getPerspectiveTransform
     [\<lparr>px = 0, py = 0\<rparr>, \<lparr>px = 1, py = 0\<rparr>, \<lparr>px = 1, py = 1\<rparr>, \<lparr>px = 0, py = 1\<rparr>]
     [\<lparr>px = 0, py = 0\<rparr>, \<lparr>px = 1, py = 0\<rparr>, \<lparr>px = 2, py = 0\<rparr>, \<lparr>px = 0, py = 1\<rparr>]
   = Some [2, 0, 0, 1, 0, 0, 0, - 1, 0, 0, 1, 0, 0, 0, 0, 1]"
  by (simp add: solver_eval)

lemma duplicate_source_fails:
  "getPerspectiveTransform
     [\<lparr>px = 0, py = 0\<rparr>, \<lparr>px = 0, py = 0\<rparr>, \<lparr>px = 1, py = 1\<rparr>, \<lparr>px = 0, py = 1\<rparr>]
     [\<lparr>px = 0, py = 0\<rparr>, \<lparr>px = 1, py = 0\<rparr>, \<lparr>px = 1, py = 1\<rparr>, \<lparr>px = 0, py = 1\<rparr>]
   = None"
  by (simp add: solver_eval)


lemma translation_solved:
  "getPerspectiveTransform
     [\<lparr>px = 0, py = 0\<rparr>, \<lparr>px = 10, py = 0\<rparr>, \<lparr>px = 10, py = 10\<rparr>, \<lparr>px = 0, py = 10\<rparr>]
     [\<lparr>px = 10, py = 5\<rparr>, \<lparr>px = 20, py = 5\<rparr>, \<lparr>px = 20, py = 15\<rparr>, \<lparr>px = 10, py = 15\<rparr>]
   = Some [1, 0, 0, 0, 0, 1, 0, 0, 0, 0, 1, 0, 10, 5, 0, 1]"
  by (simp add: solver_eval)

subsection \<open>The claims about the solver\<close>




text \<open>
  Claim C5, as amended.  For coordinates of magnitude at most \<open>2^20\<close>, the solver
  returns \<open>none\<close>, and never a matrix, exactly when one of the two sequences does not
  have 4 points or, in some round of the elimination, the largest magnitude that partial
  pivoting finds in the pivot column, in the double arithmetic of the program, is below
  the double \<open>1e-9\<close>.  (Collinearity of three of the points is not part of the amended
  claim.)
\<close>

theorem solver_fails_iff_small_pivot:
  assumes "inPixelRange src" and "inPixelRange dst"
  shows "getPerspectiveTransform src dst = None \<longleftrightarrow>
     length src \<noteq> 4 \<or> length dst \<noteq> 4
     \<or> (\<exists>i<8. pivotMagnitude 8 i
            (augment (fst (perspectiveSystem src dst)) (snd (perspectiveSystem src dst)))
          < pivotThreshold)"
  by (rule getPerspectiveTransform_None_iff)

text \<open>
  Claim C5 as stated fails: three of the destination points \<open>(0,0), (1,0), (2,0), (0,1)\<close>
  are collinear, and for the unit square as source the solver returns a matrix (every
  value of the run is an integer, so no operation rounds).
\<close>

theorem collinear_points_counterexample:
  "threeCollinear [\<lparr>px = 0, py = 0\<rparr>, \<lparr>px = 1, py = 0\<rparr>, \<lparr>px = 2, py = 0\<rparr>, \<lparr>px = 0, py = 1\<rparr>]
   \<and> getPerspectiveTransform
     [\<lparr>px = 0, py = 0\<rparr>, \<lparr>px = 1, py = 0\<rparr>, \<lparr>px = 1, py = 1\<rparr>, \<lparr>px = 0, py = 1\<rparr>]
     [\<lparr>px = 0, py = 0\<rparr>, \<lparr>px = 1, py = 0\<rparr>, \<lparr>px = 2, py = 0\<rparr>, \<lparr>px = 0, py = 1\<rparr>]
     = Some [2, 0, 0, 1, 0, 0, 0, - 1, 0, 0, 1, 0, 0, 0, 0, 1]"
  using collinear_dest_solved by (simp add: threeCollinear_def collinear_def)

text \<open>
  The amended claim at a correspondence whose first two source points coincide (the
  solver returns \<open>none\<close>, so some pivot magnitude is below the threshold) and at the
  translation of the spec's Scenario B (a matrix is returned, so none is).
\<close>

theorem solver_fails_witness:
  "inPixelRange [\<lparr>px = 0, py = 0\<rparr>, \<lparr>px = 0, py = 0\<rparr>, \<lparr>px = 1, py = 1\<rparr>, \<lparr>px = 0, py = 1\<rparr>]
   \<and> inPixelRange [\<lparr>px = 0, py = 0\<rparr>, \<lparr>px = 1, py = 0\<rparr>, \<lparr>px = 1, py = 1\<rparr>, \<lparr>px = 0, py = 1\<rparr>]
   \<and> getPerspectiveTransform
     [\<lparr>px = 0, py = 0\<rparr>, \<lparr>px = 0, py = 0\<rparr>, \<lparr>px = 1, py = 1\<rparr>, \<lparr>px = 0, py = 1\<rparr>]
     [\<lparr>px = 0, py = 0\<rparr>, \<lparr>px = 1, py = 0\<rparr>, \<lparr>px = 1, py = 1\<rparr>, \<lparr>px = 0, py = 1\<rparr>]
     = None
   \<and> (\<exists>i<8. pivotMagnitude 8 i
         (augment
           (fst (perspectiveSystem
             [\<lparr>px = 0, py = 0\<rparr>, \<lparr>px = 0, py = 0\<rparr>, \<lparr>px = 1, py = 1\<rparr>, \<lparr>px = 0, py = 1\<rparr>]
             [\<lparr>px = 0, py = 0\<rparr>, \<lparr>px = 1, py = 0\<rparr>, \<lparr>px = 1, py = 1\<rparr>, \<lparr>px = 0, py = 1\<rparr>]))
           (snd (perspectiveSystem
             [\<lparr>px = 0, py = 0\<rparr>, \<lparr>px = 0, py = 0\<rparr>, \<lparr>px = 1, py = 1\<rparr>, \<lparr>px = 0, py = 1\<rparr>]
             [\<lparr>px = 0, py = 0\<rparr>, \<lparr>px = 1, py = 0\<rparr>, \<lparr>px = 1, py = 1\<rparr>, \<lparr>px = 0, py = 1\<rparr>])))
        < pivotThreshold)
   \<and> inPixelRange [\<lparr>px = 0, py = 0\<rparr>, \<lparr>px = 10, py = 0\<rparr>, \<lparr>px = 10, py = 10\<rparr>, \<lparr>px = 0, py = 10\<rparr>]
   \<and> inPixelRange [\<lparr>px = 10, py = 5\<rparr>, \<lparr>px = 20, py = 5\<rparr>, \<lparr>px = 20, py = 15\<rparr>, \<lparr>px = 10, py = 15\<rparr>]
   \<and> getPerspectiveTransform
     [\<lparr>px = 0, py = 0\<rparr>, \<lparr>px = 10, py = 0\<rparr>, \<lparr>px = 10, py = 10\<rparr>, \<lparr>px = 0, py = 10\<rparr>]
     [\<lparr>px = 10, py = 5\<rparr>, \<lparr>px = 20, py = 5\<rparr>, \<lparr>px = 20, py = 15\<rparr>, \<lparr>px = 10, py = 15\<rparr>]
     = Some [1, 0, 0, 0, 0, 1, 0, 0, 0, 0, 1, 0, 10, 5, 0, 1]
   \<and> \<not> (\<exists>i<8. pivotMagnitude 8 i
         (augment
           (fst (perspectiveSystem
             [\<lparr>px = 0, py = 0\<rparr>, \<lparr>px = 10, py = 0\<rparr>, \<lparr>px = 10, py = 10\<rparr>, \<lparr>px = 0, py = 10\<rparr>]
             [\<lparr>px = 10, py = 5\<rparr>, \<lparr>px = 20, py = 5\<rparr>, \<lparr>px = 20, py = 15\<rparr>, \<lparr>px = 10, py = 15\<rparr>]))
           (snd (perspectiveSystem
             [\<lparr>px = 0, py = 0\<rparr>, \<lparr>px = 10, py = 0\<rparr>, \<lparr>px = 10, py = 10\<rparr>, \<lparr>px = 0, py = 10\<rparr>]
             [\<lparr>px = 10, py = 5\<rparr>, \<lparr>px = 20, py = 5\<rparr>, \<lparr>px = 20, py = 15\<rparr>, \<lparr>px = 10, py = 15\<rparr>])))
        < pivotThreshold)"
proof -
  let ?dup = "[\<lparr>px = 0, py = 0\<rparr>, \<lparr>px = 0, py = 0\<rparr>, \<lparr>px = 1, py = 1\<rparr>, \<lparr>px = 0, py = 1\<rparr>]"
  let ?unit = "[\<lparr>px = 0, py = 0\<rparr>, \<lparr>px = 1, py = 0\<rparr>, \<lparr>px = 1, py = 1\<rparr>, \<lparr>px = 0, py = 1\<rparr>]"
  let ?square = "[\<lparr>px = 0, py = 0\<rparr>, \<lparr>px = 10, py = 0\<rparr>, \<lparr>px = 10, py = 10\<rparr>, \<lparr>px = 0, py = 10\<rparr>]"
  let ?moved = "[\<lparr>px = 10, py = 5\<rparr>, \<lparr>px = 20, py = 5\<rparr>, \<lparr>px = 20, py = 15\<rparr>, \<lparr>px = 10, py = 15\<rparr>]"
  have range: "inPixelRange ?dup" "inPixelRange ?unit" "inPixelRange ?square" "inPixelRange ?moved"
    by (simp_all add: inPixelRange_def coordinatesWithin_def)
  have fails: "\<exists>i<8. pivotMagnitude 8 i
      (augment (fst (perspectiveSystem ?dup ?unit)) (snd (perspectiveSystem ?dup ?unit))) < pivotThreshold"
    using solver_fails_iff_small_pivot [OF range(1,2)] duplicate_source_fails by simp
  have solves: "\<not> (\<exists>i<8. pivotMagnitude 8 i
      (augment (fst (perspectiveSystem ?square ?moved)) (snd (perspectiveSystem ?square ?moved))) < pivotThreshold)"
    using solver_fails_iff_small_pivot [OF range(3,4)] translation_solved by simp
  show ?thesis
    using range duplicate_source_fails translation_solved fails solves by simp
qed

section \<open>Properties of the colour filter\<close>

subsection \<open>Distances and parsed colours\<close>

lemma sqrt_less_iff:
  assumes "0 \<le> d"
  shows "sqrt d < t \<longleftrightarrow> 0 < t \<and> d < t ^ 2"
proof
  assume lt: "sqrt d < t"
  have "0 \<le> sqrt d" using assms by simp
  with lt have t: "0 < t" by linarith
  have "sqrt d ^ 2 < t ^ 2"
    using lt \<open>0 \<le> sqrt d\<close> by (intro power_strict_mono) simp_all
  then show "0 < t \<and> d < t ^ 2" using t assms by simp
next
  assume "0 < t \<and> d < t ^ 2"
  then show "sqrt d < t" using assms by (intro real_less_lsqrt) simp_all
qed

lemma colorDistance_less_iff:
  "colorDistance p c < t \<longleftrightarrow>
     0 < t \<and> (real (rgb_r p) - real (rgb_r c)) ^ 2 + (real (rgb_g p) - real (rgb_g c)) ^ 2
              + (real (rgb_b p) - real (rgb_b c)) ^ 2 < t ^ 2"
  unfolding colorDistance_def by (rule sqrt_less_iff) simp

lemma colorDistance_self: "colorDistance c c = 0"
  by (simp add: colorDistance_def)

lemma colorDistance_nonneg: "0 \<le> colorDistance p c"
  by (simp add: colorDistance_def)

lemma hexDigit_bound: "hexDigit c = Some d \<Longrightarrow> d < 16"
  by (auto simp: hexDigit_def Let_def split: if_splits)

lemma parseHexPair_bound: "parseHexPair hi lo = Some v \<Longrightarrow> v < 256"
  by (auto simp: parseHexPair_def split: option.splits dest!: hexDigit_bound)

lemma hexToRgb_bound:
  assumes "hexToRgb hex = Some c"
  shows "rgb_r c < 256 \<and> rgb_g c < 256 \<and> rgb_b c < 256"
  using assms
  by (auto simp: hexToRgb_def Let_def split: list.splits option.splits if_splits dest!: parseHexPair_bound)

lemma unat_toUint8Clamped: "v < 256 \<Longrightarrow> unat (toUint8Clamped v) = v"
  by (simp add: toUint8Clamped_def unat_of_nat)

subsection \<open>The loops of the filter against the specification's wording\<close>

lemma withinTolerance_toFilterRgb: "withinTolerance p (toFilterRgb f) = ruleMatches p f"
  by (simp add: withinTolerance_def ruleMatches_def toFilterRgb_def split: option.splits)

lemma removeLoop_eq: "removeLoop p (map toFilterRgb rs) = list_ex (ruleMatches p) rs"
  by (induction rs) (simp_all add: withinTolerance_toFilterRgb)

lemma keepLoop_eq:
  "keepLoop i p (map toFilterRgb ks) data =
     (case find (ruleMatches p) ks of
        None \<Rightarrow> (False, data)
      | Some f \<Rightarrow> (True, data[i := toUint8Clamped (rgb_r (ruleColor f)),
                                i + 1 := toUint8Clamped (rgb_g (ruleColor f)),
                                i + 2 := toUint8Clamped (rgb_b (ruleColor f)),
                                i + 3 := 255]))"
proof (induction ks)
  case Nil
  then show ?case by simp
next
  case (Cons k ks)
  show ?case
  proof (cases "hexToRgb (color k)")
    case None
    then show ?thesis
      using Cons by (simp add: toFilterRgb_def ruleMatches_def)
  next
    case (Some c)
    then show ?thesis
      using Cons by (simp add: toFilterRgb_def ruleMatches_def ruleColor_def split: option.splits)
  qed
qed

lemma ruleColor_bound:
  "rgb_r (ruleColor f) < 256" "rgb_g (ruleColor f) < 256" "rgb_b (ruleColor f) < 256"
  using hexToRgb_bound [of "color f"]
  by (auto simp: ruleColor_def split: option.splits)

lemma unat_ruleColor:
  "unat (toUint8Clamped (rgb_r (ruleColor f))) = rgb_r (ruleColor f)"
  "unat (toUint8Clamped (rgb_g (ruleColor f))) = rgb_g (ruleColor f)"
  "unat (toUint8Clamped (rgb_b (ruleColor f))) = rgb_b (ruleColor f)"
  by (simp_all add: unat_toUint8Clamped ruleColor_bound)

lemma find_matches: "find P xs = Some x \<Longrightarrow> P x"
  by (induction xs) (auto split: if_splits)

lemma processPixel_length: "length (processPixel (map toFilterRgb ks) (map toFilterRgb rs) i data) = length data"
  by (simp add: processPixel_def Let_def keepLoop_eq split: option.splits)

lemma processPixel_outside:
  assumes "j < i \<or> i + 4 \<le> j"
  shows "processPixel (map toFilterRgb ks) (map toFilterRgb rs) i data ! j = data ! j"
  using assms by (auto simp: processPixel_def Let_def keepLoop_eq split: option.splits)

lemma processPixel_pixelAt:
  assumes "4 * p + 3 < length data"
  shows "pixelAt (processPixel (map toFilterRgb (keepFilters fs)) (map toFilterRgb (removeFilters fs)) (4 * p) data) p
         = filterPixel fs (pixelAt data p)"
  using assms
  by (simp add: processPixel_def Let_def removeLoop_eq keepLoop_eq pixelAt_def filterPixel_def
      unat_ruleColor split: option.splits)

lemma pixelLoop_invariant:
  fixes fs :: ColorFilters
  assumes "4 * m \<le> length data"
  defines "D \<equiv> fold (processPixel (map toFilterRgb (keepFilters fs)) (map toFilterRgb (removeFilters fs)))
                     (map (\<lambda>k. 4 * k) [0..<m]) data"
  shows "length D = length data"
    and "\<forall>p<m. pixelAt D p = filterPixel fs (pixelAt data p)"
    and "\<forall>j. 4 * m \<le> j \<longrightarrow> D ! j = data ! j"
proof -
  let ?step = "processPixel (map toFilterRgb (keepFilters fs)) (map toFilterRgb (removeFilters fs))"
  have "length (fold ?step (map (\<lambda>k. 4 * k) [0..<m]) data) = length data
      \<and> (\<forall>p<m. pixelAt (fold ?step (map (\<lambda>k. 4 * k) [0..<m]) data) p = filterPixel fs (pixelAt data p))
      \<and> (\<forall>j. 4 * m \<le> j \<longrightarrow> fold ?step (map (\<lambda>k. 4 * k) [0..<m]) data ! j = data ! j)"
    using assms(1)
  proof (induction m)
    case 0
    then show ?case by simp
  next
    case (Suc m)
    define E where "E = fold ?step (map (\<lambda>k. 4 * k) [0..<m]) data"
    have E: "length E = length data" "\<And>p. p < m \<Longrightarrow> pixelAt E p = filterPixel fs (pixelAt data p)"
      "\<And>j. 4 * m \<le> j \<Longrightarrow> E ! j = data ! j"
      using Suc by (simp_all add: E_def)
    have next_eq: "fold ?step (map (\<lambda>k. 4 * k) [0..<Suc m]) data = ?step (4 * m) E"
      by (simp add: E_def)
    have inside: "4 * m + 3 < length E" using Suc.prems E(1) by simp
    have "pixelAt (?step (4 * m) E) p = filterPixel fs (pixelAt data p)" if "p < Suc m" for p
    proof (cases "p = m")
      case True
      have "pixelAt E m = pixelAt data m"
        by (simp add: pixelAt_def E(3))
      then show ?thesis
        unfolding True using processPixel_pixelAt [OF inside, of fs] by simp
    next
      case False
      then have "p < m" using that by simp
      then have "pixelAt (?step (4 * m) E) p = pixelAt E p"
        by (simp add: pixelAt_def processPixel_outside)
      then show ?thesis using E(2) [OF \<open>p < m\<close>] by simp
    qed
    moreover have "?step (4 * m) E ! j = data ! j" if "4 * Suc m \<le> j" for j
      using that E(3) [of j] by (simp add: processPixel_outside)
    ultimately show ?case
      unfolding next_eq using E(1) by (simp add: processPixel_length)
  qed
  then show "length D = length data"
    and "\<forall>p<m. pixelAt D p = filterPixel fs (pixelAt data p)"
    and "\<forall>j. 4 * m \<le> j \<longrightarrow> D ! j = data ! j"
    by (simp_all add: D_def)
qed

lemma processImageColors_length:
  assumes "length data mod 4 = 0"
  shows "length (processImageColors fs data) = length data"
proof -
  have n: "(length data + 3) div 4 = length data div 4" using assms by presburger
  have "4 * (length data div 4) \<le> length data" by simp
  from pixelLoop_invariant(1) [OF this, of fs] show ?thesis
    by (simp add: processImageColors_def Let_def n)
qed

lemma processImageColors_pixelAt:
  assumes "length data mod 4 = 0" "p < length data div 4"
  shows "pixelAt (processImageColors fs data) p = filterPixel fs (pixelAt data p)"
proof -
  have n: "(length data + 3) div 4 = length data div 4" using assms(1) by presburger
  have "4 * (length data div 4) \<le> length data" by simp
  from pixelLoop_invariant(2) [OF this, of fs] assms(2) show ?thesis
    by (simp add: processImageColors_def Let_def n)
qed

subsection \<open>The rules as colours: parsing pinned down\<close>

lemma below_16_cases:
  fixes d :: nat
  assumes "d < 16"
  shows "d \<in> {0, 1, 2, 3, 4, 5, 6, 7, 8, 9, 10, 11, 12, 13, 14, 15}"
  using assms by (simp add: numeral_eq_Suc less_Suc_eq)

lemma hexDigit_hexDigitChar: "d < 16 \<Longrightarrow> hexDigit (hexDigitChar upper d) = Some d"
  by (drule below_16_cases) (auto simp: hexDigit_def hexDigitChar_def)

lemma hexDigitChar_not_hash: "d < 16 \<Longrightarrow> hexDigitChar upper d \<noteq> CHR ''#''"
  by (drule below_16_cases) (auto simp: hexDigitChar_def)

lemma unat_byte_less: "unat (v :: byte) < 256"
  using unsigned_less [of v, where ?'a = nat] by simp

lemma parseHexPair_hexByte:
  "parseHexPair (hexDigitChar upper (unat v div 16)) (hexDigitChar upper (unat v mod 16)) = Some (unat (v :: byte))"
  using unat_byte_less [of v]
  by (auto simp: parseHexPair_def hexDigit_hexDigitChar)

lemma hexToRgb_hexColor:
  "hexToRgb (hexColor hash upper rule)
   = Some \<lparr>rgb_r = unat (rule_r rule), rgb_g = unat (rule_g rule), rgb_b = unat (rule_b rule)\<rparr>"
proof (cases hash)
  case True
  then show ?thesis
    by (simp add: hexToRgb_def hexColor_def hexByte_def parseHexPair_hexByte)
next
  case False
  have "unat (rule_r rule) div 16 < 16" using unat_byte_less [of "rule_r rule"] by simp
  then have "hexDigitChar upper (unat (rule_r rule) div 16) \<noteq> CHR ''#''"
    by (rule hexDigitChar_not_hash)
  with False show ?thesis
    by (simp add: hexToRgb_def hexColor_def hexByte_def parseHexPair_hexByte)
qed

lemma writtenAs_hexToRgb:
  assumes "writtenAs rule f"
  shows "hexToRgb (color f)
   = Some \<lparr>rgb_r = unat (rule_r rule), rgb_g = unat (rule_g rule), rgb_b = unat (rule_b rule)\<rparr>"
  using assms unfolding writtenAs_def by (auto simp: hexToRgb_hexColor)

lemma writtenAs_matches:
  assumes "writtenAs rule f"
  shows "ruleMatches \<lparr>rgb_r = r, rgb_g = g, rgb_b = b\<rparr> f \<longleftrightarrow> matchesRule (r, g, b) rule"
proof -
  have "tolerance f = rule_tolerance rule" using assms by (simp add: writtenAs_def)
  then show ?thesis
    by (simp add: ruleMatches_def writtenAs_hexToRgb [OF assms] matchesRule_def
        euclideanDistance_def colorDistance_def)
qed

lemma writtenAs_ruleColor:
  assumes "writtenAs rule f"
  shows "ruleColor f = \<lparr>rgb_r = unat (rule_r rule), rgb_g = unat (rule_g rule), rgb_b = unat (rule_b rule)\<rparr>"
  by (simp add: ruleColor_def writtenAs_hexToRgb [OF assms])

lemma writtenAs_list_ex:
  assumes "list_all2 writtenAs rules fs"
  shows "list_ex (ruleMatches \<lparr>rgb_r = r, rgb_g = g, rgb_b = b\<rparr>) fs \<longleftrightarrow> list_ex (matchesRule (r, g, b)) rules"
  using assms by (induction rules fs rule: list_all2_induct) (simp_all add: writtenAs_matches)

lemma writtenAs_find:
  assumes "list_all2 writtenAs rules fs"
  shows "(case find (ruleMatches \<lparr>rgb_r = r, rgb_g = g, rgb_b = b\<rparr>) fs of
            None \<Rightarrow> find (matchesRule (r, g, b)) rules = None
          | Some f \<Rightarrow> (\<exists>rule. find (matchesRule (r, g, b)) rules = Some rule \<and> writtenAs rule f))"
  using assms
  by (induction rules fs rule: list_all2_induct) (auto simp: writtenAs_matches split: option.splits)

lemma filterPixel_filteredPixel:
  assumes "list_all2 writtenAs removeRules (removeFilters filters)"
    and "list_all2 writtenAs keepRules (keepFilters filters)"
  shows "filterPixel filters pixel = filteredPixel removeRules keepRules pixel"
proof -
  obtain r g b a where px: "pixel = (r, g, b, a)" by (cases pixel) auto
  have empty: "keepFilters filters = [] \<longleftrightarrow> keepRules = []"
    using assms(2) by (auto simp: list_all2_Nil list_all2_Nil2)
  show ?thesis
    using writtenAs_find [OF assms(2), of r g b]
    unfolding px
    by (auto simp: filterPixel_def filteredPixel_def Let_def writtenAs_list_ex [OF assms(1)] empty
        writtenAs_ruleColor split: option.splits)
qed

text \<open>
  Claim C2.  For every RGBA buffer (four bytes per pixel) and every ordered rule set,
  each rule an RGB colour with a tolerance, written in the filter lists as a hexadecimal
  colour string, the filter keeps the length of the buffer and maps each pixel on its
  own: to alpha 0 when a remove rule is within its tolerance scaled by 2.55 (Euclidean
  RGB distance, strictly below); otherwise, with a non-empty keep list, to exactly the
  colour of the first keep rule within tolerance at alpha 255, or to alpha 0 when no keep
  rule matches; otherwise it leaves the pixel as it is.
\<close>

theorem color_filter_per_pixel:
  assumes "list_all2 writtenAs removeRules (removeFilters filters)"
    and "list_all2 writtenAs keepRules (keepFilters filters)"
    and "length data mod 4 = 0" and "p < length data div 4"
  shows "length (processImageColors filters data) = length data
       \<and> pixelAt (processImageColors filters data) p
           = filteredPixel removeRules keepRules (pixelAt data p)"
  using processImageColors_length [OF assms(3)] processImageColors_pixelAt [OF assms(3,4)]
    filterPixel_filteredPixel [OF assms(1,2)]
  by simp

lemma buffer_eqI:
  fixes A B :: "byte list"
  assumes len: "length A = length B" and four: "length A mod 4 = 0"
    and px: "\<And>p. p < length A div 4 \<Longrightarrow> pixelAt A p = pixelAt B p"
  shows "A = B"
proof (rule nth_equalityI [OF len])
  fix j assume j: "j < length A"
  define p where "p = j div 4"
  have p: "p < length A div 4"
    using j four unfolding p_def by presburger
  have eqs: "unat (A ! (4 * p)) = unat (B ! (4 * p))" "unat (A ! (4 * p + 1)) = unat (B ! (4 * p + 1))"
    "unat (A ! (4 * p + 2)) = unat (B ! (4 * p + 2))" "unat (A ! (4 * p + 3)) = unat (B ! (4 * p + 3))"
    using px [OF p] by (simp_all add: pixelAt_def)
  have "j = 4 * p \<or> j = 4 * p + 1 \<or> j = 4 * p + 2 \<or> j = 4 * p + 3"
    unfolding p_def by presburger
  then have "unat (A ! j) = unat (B ! j)"
    using eqs by auto
  then show "A ! j = B ! j" by (rule unsigned_word_eqI)
qed

lemma noClash_nth:
  assumes "noClash fs" "k < length (keepFilters fs)" "hexToRgb (color (keepFilters fs ! k)) = Some c"
  shows "\<not> list_ex (ruleMatches c) (removeFilters fs)"
    and "\<not> list_ex (ruleMatches c) (take k (keepFilters fs))"
proof -
  have "enumerate 0 (keepFilters fs) ! k = (k, keepFilters fs ! k)"
    using assms(2) by (simp add: nth_enumerate_eq)
  moreover have "k < length (enumerate 0 (keepFilters fs))"
    using assms(2) by simp
  ultimately have "case hexToRgb (color (keepFilters fs ! k)) of
                  None \<Rightarrow> True
                | Some c \<Rightarrow> \<not> list_ex (ruleMatches c) (removeFilters fs)
                          \<and> \<not> list_ex (ruleMatches c) (take k (keepFilters fs))"
    using assms(1) unfolding noClash_def list_all_length by (metis (mono_tags, lifting) case_prod_conv)
  then show "\<not> list_ex (ruleMatches c) (removeFilters fs)"
    and "\<not> list_ex (ruleMatches c) (take k (keepFilters fs))"
    using assms(3) by simp_all
qed

lemma ruleMatches_own_color:
  assumes "ruleMatches q f"
  shows "hexToRgb (color f) = Some (ruleColor f)" and "ruleMatches (ruleColor f) f"
proof -
  obtain c where c: "hexToRgb (color f) = Some c" and d: "colorDistance q c < tolerance f * (255 / 100)"
    using assms by (auto simp: ruleMatches_def split: option.splits)
  have "0 \<le> colorDistance q c" by (rule colorDistance_nonneg)
  with d have "0 < tolerance f * (255 / 100)" by linarith
  then show "hexToRgb (color f) = Some (ruleColor f)" and "ruleMatches (ruleColor f) f"
    using c by (simp_all add: ruleMatches_def ruleColor_def colorDistance_self)
qed

lemma filterPixel_idempotent:
  assumes "noClash fs"
  shows "filterPixel fs (filterPixel fs q) = filterPixel fs q"
proof -
  obtain r g b a where q: "q = (r, g, b, a)" by (cases q)
  define P where "P = \<lparr>rgb_r = r, rgb_g = g, rgb_b = b\<rparr>"
  show ?thesis
  proof (cases "list_ex (ruleMatches P) (removeFilters fs)")
    case True
    then show ?thesis by (simp add: q filterPixel_def P_def)
  next
    case noRemove: False
    show ?thesis
    proof (cases "keepFilters fs = []")
      case True
      then show ?thesis using noRemove by (simp add: q filterPixel_def P_def)
    next
      case nonEmpty: False
      show ?thesis
      proof (cases "find (ruleMatches P) (keepFilters fs)")
        case None
        then show ?thesis using noRemove nonEmpty by (simp add: q filterPixel_def P_def)
      next
        case (Some f)
        then obtain k where k: "k < length (keepFilters fs)" "ruleMatches P (keepFilters fs ! k)"
          "f = keepFilters fs ! k"
          unfolding find_Some_iff by blast
        define c where "c = ruleColor f"
        have own: "hexToRgb (color f) = Some c" "ruleMatches c f"
          using ruleMatches_own_color [of P f] k(2,3) by (simp_all add: c_def)
        have clash: "\<not> list_ex (ruleMatches c) (removeFilters fs)"
          "\<not> list_ex (ruleMatches c) (take k (keepFilters fs))"
          using noClash_nth [OF assms k(1), of c] own(1) k(3) by simp_all
        have earlier: "\<not> ruleMatches c (keepFilters fs ! j)" if "j < k" for j
        proof -
          have "keepFilters fs ! j \<in> set (take k (keepFilters fs))"
            using that k(1) by (metis in_set_conv_nth length_take min.absorb2 nth_take less_imp_le)
          then show ?thesis using clash(2) by (auto simp: list_ex_iff)
        qed
        have again: "find (ruleMatches c) (keepFilters fs) = Some f"
          unfolding find_Some_iff using k(1,3) own(2) earlier by blast
        have first: "filterPixel fs q = (rgb_r c, rgb_g c, rgb_b c, 255)"
          using noRemove nonEmpty Some by (simp add: q filterPixel_def P_def [symmetric] c_def)
        have cc: "\<lparr>rgb_r = rgb_r c, rgb_g = rgb_g c, rgb_b = rgb_b c\<rparr> = c" by simp
        have "filterPixel fs (rgb_r c, rgb_g c, rgb_b c, 255) = (rgb_r c, rgb_g c, rgb_b c, 255)"
          using clash(1) nonEmpty again by (simp add: filterPixel_def Let_def cc c_def [symmetric])
        then show ?thesis by (simp add: first)
      qed
    qed
  qed
qed

text \<open>
  Claim C6, as amended.  For every pixel buffer and every rule set in which no keep
  rule's target colour is matched by a remove rule or by an earlier keep rule, applying
  the colour filter twice equals applying it once.
\<close>

theorem color_filter_idempotent:
  assumes "noClash filters" and "length data mod 4 = 0"
  shows "processImageColors filters (processImageColors filters data) = processImageColors filters data"
proof (rule buffer_eqI)
  let ?once = "processImageColors filters data"
  have len: "length ?once = length data"
    using assms(2) by (rule processImageColors_length)
  then have four: "length ?once mod 4 = 0" using assms(2) by simp
  show "length (processImageColors filters ?once) = length ?once"
    using four by (rule processImageColors_length)
  then show "length (processImageColors filters ?once) mod 4 = 0"
    using four by simp
  fix p assume "p < length (processImageColors filters ?once) div 4"
  then have p: "p < length data div 4" "p < length ?once div 4"
    using len processImageColors_length [OF four] by simp_all
  have "pixelAt (processImageColors filters ?once) p = filterPixel filters (pixelAt ?once p)"
    using four p(2) by (rule processImageColors_pixelAt)
  also have "pixelAt ?once p = filterPixel filters (pixelAt data p)"
    using assms(2) p(1) by (rule processImageColors_pixelAt)
  also have "filterPixel filters (filterPixel filters (pixelAt data p)) = filterPixel filters (pixelAt data p)"
    using assms(1) by (rule filterPixel_idempotent)
  also have "\<dots> = pixelAt ?once p"
    using processImageColors_pixelAt [OF assms(2) p(1)] by simp
  finally show "pixelAt (processImageColors filters ?once) p = pixelAt ?once p" .
qed

lemma scaled_tolerance:
  fixes t d :: real
  shows "0 < t * (255 / 100) \<and> d < (t * (255 / 100)) ^ 2 \<longleftrightarrow> 0 < t \<and> 10000 * d < (255 * t) ^ 2"
proof -
  have "(t * (255 / 100)) ^ 2 = (255 * t) ^ 2 / 10000"
    by (simp add: power2_eq_square)
  then show ?thesis by (simp add: field_simps)
qed

lemma ruleMatches_iff:
  "ruleMatches p f \<longleftrightarrow>
     (case hexToRgb (color f) of
        None \<Rightarrow> False
      | Some c \<Rightarrow> 0 < tolerance f
          \<and> 10000 * ((real (rgb_r p) - real (rgb_r c)) ^ 2 + (real (rgb_g p) - real (rgb_g c)) ^ 2
              + (real (rgb_b p) - real (rgb_b c)) ^ 2) < (255 * tolerance f) ^ 2)"
  by (cases "hexToRgb (color f)")
    (simp_all only: ruleMatches_def colorDistance_less_iff scaled_tolerance option.case)

lemmas pixel_eval = filterPixel_def ruleMatches_iff ruleColor_def hexToRgb_def parseHexPair_def
  hexDigit_def pixelAt_def Let_def

text \<open>
  Claim C6 as stated fails.  With the keep rule \<open>#000000\<close> at tolerance 50 and the
  remove rule \<open>#000000\<close> at tolerance 10, the pixel \<open>(100, 0, 0, 255)\<close> is at distance
  100 from black: outside the remove threshold 25.5, inside the keep threshold 127.5.
  The first pass recolours it to opaque black; the second pass finds black within the
  remove threshold and makes it transparent.
\<close>

theorem color_filter_twice_counterexample:
  "pixelAt (processImageColors
      \<lparr>keepFilters = [\<lparr>color = ''#000000'', tolerance = 50\<rparr>],
       removeFilters = [\<lparr>color = ''#000000'', tolerance = 10\<rparr>]\<rparr>
      [100, 0, 0, 255]) 0 = (0, 0, 0, 255)
   \<and> pixelAt (processImageColors
      \<lparr>keepFilters = [\<lparr>color = ''#000000'', tolerance = 50\<rparr>],
       removeFilters = [\<lparr>color = ''#000000'', tolerance = 10\<rparr>]\<rparr>
      (processImageColors
        \<lparr>keepFilters = [\<lparr>color = ''#000000'', tolerance = 50\<rparr>],
         removeFilters = [\<lparr>color = ''#000000'', tolerance = 10\<rparr>]\<rparr>
        [100, 0, 0, 255])) 0 = (0, 0, 0, 0)"
proof -
  let ?F = "\<lparr>keepFilters = [\<lparr>color = ''#000000'', tolerance = 50\<rparr>],
             removeFilters = [\<lparr>color = ''#000000'', tolerance = 10\<rparr>]\<rparr>"
  let ?d = "[100, 0, 0, 255] :: byte list"
  have len: "length (processImageColors ?F ?d) = 4"
    using processImageColors_length [of ?d ?F] by simp
  have once: "pixelAt (processImageColors ?F ?d) 0 = (0, 0, 0, 255)"
    using processImageColors_pixelAt [of ?d 0 ?F] by (simp add: pixel_eval)
  have "pixelAt (processImageColors ?F (processImageColors ?F ?d)) 0
        = filterPixel ?F (pixelAt (processImageColors ?F ?d) 0)"
    using len by (intro processImageColors_pixelAt) simp_all
  also have "\<dots> = (0, 0, 0, 0)"
    unfolding once by (simp add: pixel_eval)
  finally show ?thesis using once by simp
qed

lemma default_noClash:
  "noClash \<lparr>keepFilters = [\<lparr>color = ''#ff0000'', tolerance = 80\<rparr>],
            removeFilters = [\<lparr>color = ''#ffff00'', tolerance = 80\<rparr>, \<lparr>color = ''#ffffff'', tolerance = 5\<rparr>]\<rparr>"
  by (simp add: noClash_def pixel_eval enumerate_eq_zip upt_rec)

text \<open>
  The amended claim at the editor's initial rule set (keep \<open>#ff0000\<close> at 80; remove
  \<open>#ffff00\<close> at 80 and \<open>#ffffff\<close> at 5) and a buffer of three pixels.
\<close>

theorem color_filter_idempotent_witness:
  "noClash \<lparr>keepFilters = [\<lparr>color = ''#ff0000'', tolerance = 80\<rparr>],
            removeFilters = [\<lparr>color = ''#ffff00'', tolerance = 80\<rparr>, \<lparr>color = ''#ffffff'', tolerance = 5\<rparr>]\<rparr>
   \<and> length [200, 30, 30, 90,  250, 250, 250, 255,  0, 255, 0, 255 :: byte] mod 4 = 0
   \<and> processImageColors
       \<lparr>keepFilters = [\<lparr>color = ''#ff0000'', tolerance = 80\<rparr>],
        removeFilters = [\<lparr>color = ''#ffff00'', tolerance = 80\<rparr>, \<lparr>color = ''#ffffff'', tolerance = 5\<rparr>]\<rparr>
       (processImageColors
         \<lparr>keepFilters = [\<lparr>color = ''#ff0000'', tolerance = 80\<rparr>],
          removeFilters = [\<lparr>color = ''#ffff00'', tolerance = 80\<rparr>, \<lparr>color = ''#ffffff'', tolerance = 5\<rparr>]\<rparr>
         [200, 30, 30, 90,  250, 250, 250, 255,  0, 255, 0, 255])
     = processImageColors
         \<lparr>keepFilters = [\<lparr>color = ''#ff0000'', tolerance = 80\<rparr>],
          removeFilters = [\<lparr>color = ''#ffff00'', tolerance = 80\<rparr>, \<lparr>color = ''#ffffff'', tolerance = 5\<rparr>]\<rparr>
         [200, 30, 30, 90,  250, 250, 250, 255,  0, 255, 0, 255]"
  using color_filter_idempotent [OF default_noClash,
      of "[200, 30, 30, 90,  250, 250, 250, 255,  0, 255, 0, 255]"]
    default_noClash
  by simp

lemma matchesRule_iff:
  "matchesRule (r, g, b) rule \<longleftrightarrow>
     0 < rule_tolerance rule
     \<and> 10000 * ((real r - real (unat (rule_r rule))) ^ 2 + (real g - real (unat (rule_g rule))) ^ 2
                + (real b - real (unat (rule_b rule))) ^ 2) < (255 * rule_tolerance rule) ^ 2"
proof -
  define d where "d = (real r - real (unat (rule_r rule))) ^ 2 + (real g - real (unat (rule_g rule))) ^ 2
                + (real b - real (unat (rule_b rule))) ^ 2"
  define t where "t = rule_tolerance rule"
  have sq: "(t * 2.55) ^ 2 = (255 * t) ^ 2 / 10000"
    by (simp add: power2_eq_square)
  have "0 \<le> d" by (simp add: d_def)
  then have "sqrt d < t * 2.55 \<longleftrightarrow> 0 < t * 2.55 \<and> d < (t * 2.55) ^ 2"
    by (rule sqrt_less_iff)
  also have "\<dots> \<longleftrightarrow> 0 < t \<and> 10000 * d < (255 * t) ^ 2"
    unfolding sq by (simp add: field_simps)
  finally show ?thesis
    by (simp add: matchesRule_def euclideanDistance_def d_def t_def)
qed

lemma scenario_rules_written:
  "list_all2 writtenAs [\<lparr>rule_r = 255, rule_g = 255, rule_b = 255, rule_tolerance = 5\<rparr>]
                       [\<lparr>color = ''FFFFFF'', tolerance = 5\<rparr>]
   \<and> list_all2 writtenAs [\<lparr>rule_r = 255, rule_g = 0, rule_b = 0, rule_tolerance = 80\<rparr>]
                         [\<lparr>color = ''#ff0000'', tolerance = 80\<rparr>]"
  by (simp add: writtenAs_def hexColor_def hexByte_def hexDigitChar_def)

lemma scenario_pixels:
  "filteredPixel [\<lparr>rule_r = 255, rule_g = 255, rule_b = 255, rule_tolerance = 5\<rparr>]
     [\<lparr>rule_r = 255, rule_g = 0, rule_b = 0, rule_tolerance = 80\<rparr>] (200, 30, 30, 90) = (255, 0, 0, 255)"
  "filteredPixel [\<lparr>rule_r = 255, rule_g = 255, rule_b = 255, rule_tolerance = 5\<rparr>]
     [\<lparr>rule_r = 255, rule_g = 0, rule_b = 0, rule_tolerance = 80\<rparr>] (250, 250, 250, 255) = (250, 250, 250, 0)"
  "filteredPixel [\<lparr>rule_r = 255, rule_g = 255, rule_b = 255, rule_tolerance = 5\<rparr>]
     [\<lparr>rule_r = 255, rule_g = 0, rule_b = 0, rule_tolerance = 80\<rparr>] (0, 255, 0, 255) = (0, 255, 0, 0)"
  "filteredPixel [\<lparr>rule_r = 255, rule_g = 255, rule_b = 255, rule_tolerance = 5\<rparr>] [] (200, 30, 30, 90)
     = (200, 30, 30, 90)"
  by (simp_all add: filteredPixel_def matchesRule_iff)

text \<open>
  Claim C2 at the spec's Scenario C (keep \<open>#ff0000\<close> at 80, remove white at 5, here
  written \<open>FFFFFF\<close>): the pixel \<open>(200, 30, 30)\<close> is within the red threshold 204 and
  is recoloured to opaque red; \<open>(250, 250, 250)\<close> is within the white threshold 12.75
  and becomes transparent; \<open>(0, 255, 0)\<close> matches no rule and becomes transparent; with
  an empty keep list the first pixel passes through.
\<close>

theorem color_filter_per_pixel_witness:
  "list_all2 writtenAs [\<lparr>rule_r = 255, rule_g = 255, rule_b = 255, rule_tolerance = 5\<rparr>]
                       [\<lparr>color = ''FFFFFF'', tolerance = 5\<rparr>]
   \<and> list_all2 writtenAs [\<lparr>rule_r = 255, rule_g = 0, rule_b = 0, rule_tolerance = 80\<rparr>]
                         [\<lparr>color = ''#ff0000'', tolerance = 80\<rparr>]
   \<and> length [200, 30, 30, 90,  250, 250, 250, 255,  0, 255, 0, 255 :: byte] mod 4 = 0
   \<and> pixelAt (processImageColors
        \<lparr>keepFilters = [\<lparr>color = ''#ff0000'', tolerance = 80\<rparr>],
         removeFilters = [\<lparr>color = ''FFFFFF'', tolerance = 5\<rparr>]\<rparr>
        [200, 30, 30, 90,  250, 250, 250, 255,  0, 255, 0, 255]) 0 = (255, 0, 0, 255)
   \<and> pixelAt (processImageColors
        \<lparr>keepFilters = [\<lparr>color = ''#ff0000'', tolerance = 80\<rparr>],
         removeFilters = [\<lparr>color = ''FFFFFF'', tolerance = 5\<rparr>]\<rparr>
        [200, 30, 30, 90,  250, 250, 250, 255,  0, 255, 0, 255]) 1 = (250, 250, 250, 0)
   \<and> pixelAt (processImageColors
        \<lparr>keepFilters = [\<lparr>color = ''#ff0000'', tolerance = 80\<rparr>],
         removeFilters = [\<lparr>color = ''FFFFFF'', tolerance = 5\<rparr>]\<rparr>
        [200, 30, 30, 90,  250, 250, 250, 255,  0, 255, 0, 255]) 2 = (0, 255, 0, 0)
   \<and> pixelAt (processImageColors \<lparr>keepFilters = [], removeFilters = [\<lparr>color = ''FFFFFF'', tolerance = 5\<rparr>]\<rparr>
        [200, 30, 30, 90,  250, 250, 250, 255,  0, 255, 0, 255]) 0 = (200, 30, 30, 90)"
proof -
  let ?data = "[200, 30, 30, 90,  250, 250, 250, 255,  0, 255, 0, 255] :: byte list"
  let ?filters = "\<lparr>keepFilters = [\<lparr>color = ''#ff0000'', tolerance = 80\<rparr>],
                   removeFilters = [\<lparr>color = ''FFFFFF'', tolerance = 5\<rparr>]\<rparr>"
  let ?removeOnly = "\<lparr>keepFilters = [], removeFilters = [\<lparr>color = ''FFFFFF'', tolerance = 5\<rparr>]\<rparr>"
  let ?remove = "[\<lparr>rule_r = 255, rule_g = 255, rule_b = 255, rule_tolerance = 5\<rparr>]"
  let ?keep = "[\<lparr>rule_r = 255, rule_g = 0, rule_b = 0, rule_tolerance = 80\<rparr>]"
  have px: "pixelAt ?data 0 = (200, 30, 30, 90)" "pixelAt ?data 1 = (250, 250, 250, 255)"
    "pixelAt ?data 2 = (0, 255, 0, 255)"
    by (simp_all add: pixelAt_def)
  have len: "length ?data mod 4 = 0" "0 < length ?data div 4" "1 < length ?data div 4" "2 < length ?data div 4"
    by simp_all
  have r: "list_all2 writtenAs ?remove (removeFilters ?filters)"
    and k: "list_all2 writtenAs ?keep (keepFilters ?filters)"
    and r': "list_all2 writtenAs ?remove (removeFilters ?removeOnly)"
    and k': "list_all2 writtenAs [] (keepFilters ?removeOnly)"
    using scenario_rules_written by simp_all
  have "pixelAt (processImageColors ?filters ?data) 0 = (255, 0, 0, 255)"
    using color_filter_per_pixel [OF r k len(1) len(2)] by (simp only: px scenario_pixels)
  moreover have "pixelAt (processImageColors ?filters ?data) 1 = (250, 250, 250, 0)"
    using color_filter_per_pixel [OF r k len(1) len(3)] by (simp only: px scenario_pixels)
  moreover have "pixelAt (processImageColors ?filters ?data) 2 = (0, 255, 0, 0)"
    using color_filter_per_pixel [OF r k len(1) len(4)] by (simp only: px scenario_pixels)
  moreover have "pixelAt (processImageColors ?removeOnly ?data) 0 = (200, 30, 30, 90)"
    using color_filter_per_pixel [OF r' k' len(1) len(2)] by (simp only: px scenario_pixels)
  ultimately show ?thesis
    using scenario_rules_written len(1) by simp
qed

section \<open>Properties of the editor\<close>

lemma runEffects_same: "runEffects s s = s"
  by (simp add: runEffects_def runWhen_def)

lemma replacePoint_update: "replacePoint i p ps = ps[i := p]"
proof (rule nth_equalityI)
  show "length (replacePoint i p ps) = length (ps[i := p])"
    by (simp add: replacePoint_def)
next
  fix j assume "j < length (replacePoint i p ps)"
  then have j: "j < length ps" by (simp add: replacePoint_def)
  then show "replacePoint i p ps ! j = ps[i := p] ! j"
    by (auto simp: replacePoint_def nth_enumerate_eq nth_list_update)
qed

lemma replacePoint_length: "length (replacePoint i p ps) = length ps"
  by (simp add: replacePoint_def)

lemmas handler_defs = handleModeChange_def handleManualScaleChange_def handleResetPoints_def
  handleManualPointDrag_def handleAutoDestPointDrag_def handleSourcePointMouseDown_def
  handleSourceMouseMove_def handleSourceMouseUp_def handleAutoPinClick_def handleContainerClick_def
  handleClearPins_def handleContainerResized_def handleFieldPhotoLoaded_def handleOverlayImageLoaded_def
  overlayPreviewRef_def

lemmas setter_defs = setDestPoints_def setSourcePoints_def setImageRenderGeom_def
  setOverlayImageSize_def setContainerRect_def

lemmas effect_defs = runEffects_def runWhen_def effectPreviewGeom_def effectScale_def effectManualSource_def
  effectClearOnAuto_def effectTransform_def updatePointsForScale_def

text \<open>
  Claim C9.  In Auto Pin mode a mouse-down on a source point while the step index is odd
  changes no state and starts no drag.  While the step index is even it starts the drag
  of that point, and the next mouse move puts the point where the mouse is (clamped to
  the displayed image).  A placed destination point follows its drag at every step (the drag reports positions
  relative to the container rectangle).
\<close>

theorem source_drag_locked_on_odd_steps:
  "(pinningStep s mod 2 \<noteq> 0 \<longrightarrow> dispatch (SourcePointMouseDown i) s = s)
   \<and> (editMode s = Auto \<and> i < length (sourcePoints s) \<and> pinningStep s mod 2 = 0 \<longrightarrow>
        draggingSourcePointIndex (dispatch (SourcePointMouseDown i) s) = Some i
        \<and> (\<forall>overlaySize. overlayImageSize s = Some overlaySize \<longrightarrow>
             sourcePoints (dispatch (WindowMouseMove e) (dispatch (SourcePointMouseDown i) s))
             = (sourcePoints s)[i := draggedSourcePoint e s overlaySize]))
   \<and> (editMode s = Auto \<and> j < length (destPoints s) \<and> containerRect s = Some rect \<longrightarrow>
        destPoints (dispatch (DestPointDrag j e') s) = (destPoints s)[j := draggedPoint rect e']
        \<and> pinningStep (dispatch (DestPointDrag j e') s) = pinningStep s)"
proof (intro conjI impI allI)
  assume "pinningStep s mod 2 \<noteq> 0"
  then have "handle (SourcePointMouseDown i) s = s"
    by (simp add: handleSourcePointMouseDown_def)
  then show "dispatch (SourcePointMouseDown i) s = s"
    by (simp add: dispatch_def runEffects_same)
next
  assume a: "editMode s = Auto \<and> i < length (sourcePoints s) \<and> pinningStep s mod 2 = 0"
  then have down: "dispatch (SourcePointMouseDown i) s = s\<lparr>draggingSourcePointIndex := Some i\<rparr>"
    by (simp add: dispatch_def handleSourcePointMouseDown_def runEffects_def runWhen_def)
  show "draggingSourcePointIndex (dispatch (SourcePointMouseDown i) s) = Some i"
    by (simp add: down)
  fix overlaySize assume "overlayImageSize s = Some overlaySize"
  then show "sourcePoints (dispatch (WindowMouseMove e) (dispatch (SourcePointMouseDown i) s))
             = (sourcePoints s)[i := draggedSourcePoint e s overlaySize]"
    using a unfolding down
    by (simp add: dispatch_def handleSourceMouseMove_def overlayPreviewRef_def draggedSourcePoint_def
        replacePoint_update setter_defs effect_defs Let_def)
next
  assume a: "editMode s = Auto \<and> j < length (destPoints s) \<and> containerRect s = Some rect"
  then show "destPoints (dispatch (DestPointDrag j e') s) = (destPoints s)[j := draggedPoint rect e']"
    by (simp add: dispatch_def handleAutoDestPointDrag_def replacePoint_update setter_defs effect_defs Let_def)
  from a show "pinningStep (dispatch (DestPointDrag j e') s) = pinningStep s"
    by (simp add: dispatch_def handleAutoDestPointDrag_def replacePoint_update setter_defs effect_defs Let_def)
qed

subsection \<open>What the effects leave alone\<close>

lemma updatePointsForScale_keeps:
  "editMode (updatePointsForScale scale r s) = editMode s"
  "pinningStep (updatePointsForScale scale r s) = pinningStep s"
  "isManuallyAdjusted (updatePointsForScale scale r s) = isManuallyAdjusted s"
  "sourcePoints (updatePointsForScale scale r s) = sourcePoints s"
  "sourcePointsGen (updatePointsForScale scale r s) = sourcePointsGen s"
  "draggingSourcePointIndex (updatePointsForScale scale r s) = draggingSourcePointIndex s"
  "containerRect (updatePointsForScale scale r s) = containerRect s"
  by (simp_all add: updatePointsForScale_def setDestPoints_def Let_def split: option.splits)

lemma effectPreviewGeom_keeps:
  "editMode (effectPreviewGeom r s) = editMode s"
  "pinningStep (effectPreviewGeom r s) = pinningStep s"
  "isManuallyAdjusted (effectPreviewGeom r s) = isManuallyAdjusted s"
  "destPoints (effectPreviewGeom r s) = destPoints s"
  "destPointsGen (effectPreviewGeom r s) = destPointsGen s"
  "sourcePoints (effectPreviewGeom r s) = sourcePoints s"
  "sourcePointsGen (effectPreviewGeom r s) = sourcePointsGen s"
  "draggingSourcePointIndex (effectPreviewGeom r s) = draggingSourcePointIndex s"
  "containerRect (effectPreviewGeom r s) = containerRect s"
  by (simp_all add: effectPreviewGeom_def split: option.splits)

lemma effectScale_keeps:
  "editMode (effectScale r s) = editMode s"
  "pinningStep (effectScale r s) = pinningStep s"
  "isManuallyAdjusted (effectScale r s) = isManuallyAdjusted s"
  "sourcePoints (effectScale r s) = sourcePoints s"
  "sourcePointsGen (effectScale r s) = sourcePointsGen s"
  "draggingSourcePointIndex (effectScale r s) = draggingSourcePointIndex s"
  "containerRect (effectScale r s) = containerRect s"
  by (simp_all add: effectScale_def updatePointsForScale_keeps)

lemma effectScale_idle:
  "editMode r = Auto \<or> isManuallyAdjusted r \<Longrightarrow> effectScale r s = s"
  by (auto simp: effectScale_def)

lemma effectManualSource_keeps:
  "editMode (effectManualSource r s) = editMode s"
  "pinningStep (effectManualSource r s) = pinningStep s"
  "isManuallyAdjusted (effectManualSource r s) = isManuallyAdjusted s"
  "destPoints (effectManualSource r s) = destPoints s"
  "destPointsGen (effectManualSource r s) = destPointsGen s"
  "draggingSourcePointIndex (effectManualSource r s) = draggingSourcePointIndex s"
  "containerRect (effectManualSource r s) = containerRect s"
  by (simp_all add: effectManualSource_def setSourcePoints_def split: option.splits)

lemma effectManualSource_idle: "editMode r = Auto \<Longrightarrow> effectManualSource r s = s"
  by (simp add: effectManualSource_def split: option.splits)

lemma effectClearOnAuto_keeps:
  "editMode (effectClearOnAuto r s) = editMode s"
  "pinningStep (effectClearOnAuto r s) = pinningStep s"
  "isManuallyAdjusted (effectClearOnAuto r s) = isManuallyAdjusted s"
  "draggingSourcePointIndex (effectClearOnAuto r s) = draggingSourcePointIndex s"
  "containerRect (effectClearOnAuto r s) = containerRect s"
  by (simp_all add: effectClearOnAuto_def setSourcePoints_def setDestPoints_def)

lemma effectClearOnAuto_idle: "editMode r = Manual \<Longrightarrow> effectClearOnAuto r s = s"
  by (simp add: effectClearOnAuto_def)

lemma effectClearOnAuto_clears:
  "editMode r = Auto \<Longrightarrow> destPoints (effectClearOnAuto r s) = [] \<and> sourcePoints (effectClearOnAuto r s) = []"
  by (simp add: effectClearOnAuto_def setSourcePoints_def setDestPoints_def)

lemma effectTransform_keeps:
  "editMode (effectTransform r s) = editMode s"
  "pinningStep (effectTransform r s) = pinningStep s"
  "isManuallyAdjusted (effectTransform r s) = isManuallyAdjusted s"
  "destPoints (effectTransform r s) = destPoints s"
  "destPointsGen (effectTransform r s) = destPointsGen s"
  "sourcePoints (effectTransform r s) = sourcePoints s"
  "sourcePointsGen (effectTransform r s) = sourcePointsGen s"
  "draggingSourcePointIndex (effectTransform r s) = draggingSourcePointIndex s"
  "containerRect (effectTransform r s) = containerRect s"
  by (simp_all add: effectTransform_def)

lemmas effects_keep = effectPreviewGeom_keeps effectScale_keeps effectManualSource_keeps
  effectClearOnAuto_keeps effectTransform_keeps

lemma runWhen_keeps:
  "editMode (runWhen c (effectPreviewGeom r) s) = editMode s"
  "pinningStep (runWhen c (effectPreviewGeom r) s) = pinningStep s"
  "isManuallyAdjusted (runWhen c (effectPreviewGeom r) s) = isManuallyAdjusted s"
  "destPoints (runWhen c (effectPreviewGeom r) s) = destPoints s"
  "destPointsGen (runWhen c (effectPreviewGeom r) s) = destPointsGen s"
  "sourcePoints (runWhen c (effectPreviewGeom r) s) = sourcePoints s"
  "sourcePointsGen (runWhen c (effectPreviewGeom r) s) = sourcePointsGen s"
  "draggingSourcePointIndex (runWhen c (effectPreviewGeom r) s) = draggingSourcePointIndex s"
  "containerRect (runWhen c (effectPreviewGeom r) s) = containerRect s"
  "editMode (runWhen c (effectScale r) s) = editMode s"
  "pinningStep (runWhen c (effectScale r) s) = pinningStep s"
  "isManuallyAdjusted (runWhen c (effectScale r) s) = isManuallyAdjusted s"
  "sourcePoints (runWhen c (effectScale r) s) = sourcePoints s"
  "sourcePointsGen (runWhen c (effectScale r) s) = sourcePointsGen s"
  "draggingSourcePointIndex (runWhen c (effectScale r) s) = draggingSourcePointIndex s"
  "containerRect (runWhen c (effectScale r) s) = containerRect s"
  "editMode (runWhen c (effectManualSource r) s) = editMode s"
  "pinningStep (runWhen c (effectManualSource r) s) = pinningStep s"
  "isManuallyAdjusted (runWhen c (effectManualSource r) s) = isManuallyAdjusted s"
  "destPoints (runWhen c (effectManualSource r) s) = destPoints s"
  "destPointsGen (runWhen c (effectManualSource r) s) = destPointsGen s"
  "draggingSourcePointIndex (runWhen c (effectManualSource r) s) = draggingSourcePointIndex s"
  "containerRect (runWhen c (effectManualSource r) s) = containerRect s"
  "editMode (runWhen c (effectClearOnAuto r) s) = editMode s"
  "pinningStep (runWhen c (effectClearOnAuto r) s) = pinningStep s"
  "isManuallyAdjusted (runWhen c (effectClearOnAuto r) s) = isManuallyAdjusted s"
  "draggingSourcePointIndex (runWhen c (effectClearOnAuto r) s) = draggingSourcePointIndex s"
  "containerRect (runWhen c (effectClearOnAuto r) s) = containerRect s"
  "editMode (runWhen c (effectTransform r) s) = editMode s"
  "pinningStep (runWhen c (effectTransform r) s) = pinningStep s"
  "isManuallyAdjusted (runWhen c (effectTransform r) s) = isManuallyAdjusted s"
  "destPoints (runWhen c (effectTransform r) s) = destPoints s"
  "destPointsGen (runWhen c (effectTransform r) s) = destPointsGen s"
  "sourcePoints (runWhen c (effectTransform r) s) = sourcePoints s"
  "sourcePointsGen (runWhen c (effectTransform r) s) = sourcePointsGen s"
  "draggingSourcePointIndex (runWhen c (effectTransform r) s) = draggingSourcePointIndex s"
  "containerRect (runWhen c (effectTransform r) s) = containerRect s"
  by (simp_all add: runWhen_def effects_keep)

lemma runWhen_idle:
  "editMode r = Auto \<or> isManuallyAdjusted r \<Longrightarrow> runWhen c (effectScale r) s = s"
  "editMode r = Auto \<Longrightarrow> runWhen c (effectManualSource r) s = s"
  "editMode r = Manual \<Longrightarrow> runWhen c (effectClearOnAuto r) s = s"
  by (simp_all add: runWhen_def effectScale_idle effectManualSource_idle effectClearOnAuto_idle)

lemma runEffects_keeps:
  "editMode (runEffects p r) = editMode r"
  "pinningStep (runEffects p r) = pinningStep r"
  "isManuallyAdjusted (runEffects p r) = isManuallyAdjusted r"
  "draggingSourcePointIndex (runEffects p r) = draggingSourcePointIndex r"
  "containerRect (runEffects p r) = containerRect r"
  by (simp_all add: runEffects_def Let_def runWhen_keeps)

lemma runEffects_adjusted:
  assumes "editMode r = Manual" "isManuallyAdjusted r"
  shows "destPoints (runEffects p r) = destPoints r"
  using assms
  by (simp add: runEffects_def Let_def runWhen_keeps runWhen_idle)

lemma runEffects_within_auto:
  assumes "editMode p = Auto" "editMode r = Auto"
  shows "destPoints (runEffects p r) = destPoints r" and "sourcePoints (runEffects p r) = sourcePoints r"
  using assms
  by (simp_all add: runEffects_def Let_def runWhen_keeps runWhen_idle) (simp_all add: runWhen_def effects_keep)

lemma runEffects_entering_auto:
  assumes "editMode p = Manual" "editMode r = Auto"
  shows "destPoints (runEffects p r) = []" and "sourcePoints (runEffects p r) = []"
  using assms
  by (simp_all add: runEffects_def Let_def runWhen_keeps runWhen_idle)
    (simp_all add: runWhen_def effectClearOnAuto_clears effects_keep)

lemmas dispatch_fields = runEffects_keeps runEffects_adjusted runEffects_within_auto runEffects_entering_auto

subsection \<open>The example runs, evaluated\<close>

lemmas editor_eval = dispatch_def handler_defs setter_defs effect_defs initialEditor_def
  exampleContainer_def examplePreview_def calculateObjectContainGeometry_def draggedPoint_def Let_def

lemma pinningStarted_eq:
  "pinningStarted =
     \<lparr>transform = None, editMode = Auto,
      containerRect = Some exampleContainer, containerRectGen = 2,
      overlayImageSize = Some \<lparr>size_width = 100, size_height = 200\<rparr>, overlayImageSizeGen = 1,
      imageRenderGeom = \<lparr>geom_x = 100, geom_y = 0, geom_width = 200, geom_height = 400\<rparr>, imageRenderGeomGen = 1,
      overlayPreviewGeom = \<lparr>geom_x = 50, geom_y = 0, geom_width = 100, geom_height = 200\<rparr>,
      destPoints = [], destPointsGen = 2,
      sourcePoints = [], sourcePointsGen = 2,
      draggingPointIndex = None, draggingSourcePointIndex = None,
      pinningStep = 0, manualScale = 1 / 2, isManuallyAdjusted = False,
      saveWithOverlay = True, processedOverlayUrl = None,
      containerDom = exampleContainer, previewDom = examplePreview\<rparr>"
  unfolding pinningStarted_def by (simp add: editor_eval)

lemma afterFirstPin_eq:
  "afterFirstPin =
     \<lparr>transform = None, editMode = Auto,
      containerRect = Some exampleContainer, containerRectGen = 2,
      overlayImageSize = Some \<lparr>size_width = 100, size_height = 200\<rparr>, overlayImageSizeGen = 1,
      imageRenderGeom = \<lparr>geom_x = 100, geom_y = 0, geom_width = 200, geom_height = 400\<rparr>, imageRenderGeomGen = 1,
      overlayPreviewGeom = \<lparr>geom_x = 50, geom_y = 0, geom_width = 100, geom_height = 200\<rparr>,
      destPoints = [], destPointsGen = 2,
      sourcePoints = [\<lparr>px = 10, py = 10\<rparr>], sourcePointsGen = 3,
      draggingPointIndex = None, draggingSourcePointIndex = None,
      pinningStep = 1, manualScale = 1 / 2, isManuallyAdjusted = False,
      saveWithOverlay = True, processedOverlayUrl = None,
      containerDom = exampleContainer, previewDom = examplePreview\<rparr>"
  unfolding afterFirstPin_def pinningStarted_eq by (simp add: editor_eval)

lemma afterManualDrag_eq:
  "afterManualDrag =
     \<lparr>transform = getPerspectiveTransform
        [\<lparr>px = 0, py = 0\<rparr>, \<lparr>px = 100, py = 0\<rparr>, \<lparr>px = 100, py = 100\<rparr>, \<lparr>px = 0, py = 100\<rparr>]
        [\<lparr>px = 7, py = 7\<rparr>, \<lparr>px = 300, py = 100\<rparr>, \<lparr>px = 300, py = 300\<rparr>, \<lparr>px = 100, py = 300\<rparr>],
      editMode = Manual,
      containerRect = Some exampleContainer, containerRectGen = 1,
      overlayImageSize = Some \<lparr>size_width = 100, size_height = 100\<rparr>, overlayImageSizeGen = 1,
      imageRenderGeom = \<lparr>geom_x = 0, geom_y = 0, geom_width = 400, geom_height = 400\<rparr>, imageRenderGeomGen = 1,
      overlayPreviewGeom = \<lparr>geom_x = 0, geom_y = 0, geom_width = 0, geom_height = 0\<rparr>,
      destPoints = [\<lparr>px = 7, py = 7\<rparr>, \<lparr>px = 300, py = 100\<rparr>, \<lparr>px = 300, py = 300\<rparr>, \<lparr>px = 100, py = 300\<rparr>],
      destPointsGen = 2,
      sourcePoints = [\<lparr>px = 0, py = 0\<rparr>, \<lparr>px = 100, py = 0\<rparr>, \<lparr>px = 100, py = 100\<rparr>, \<lparr>px = 0, py = 100\<rparr>],
      sourcePointsGen = 1,
      draggingPointIndex = None, draggingSourcePointIndex = None,
      pinningStep = 0, manualScale = 1 / 2, isManuallyAdjusted = True,
      saveWithOverlay = True, processedOverlayUrl = None,
      containerDom = exampleContainer, previewDom = examplePreview\<rparr>"
  unfolding afterManualDrag_def by (simp add: editor_eval replacePoint_update)

lemma afterFirstPair_eq:
  "afterFirstPair =
     \<lparr>transform = None, editMode = Auto,
      containerRect = Some exampleContainer, containerRectGen = 2,
      overlayImageSize = Some \<lparr>size_width = 100, size_height = 200\<rparr>, overlayImageSizeGen = 1,
      imageRenderGeom = \<lparr>geom_x = 100, geom_y = 0, geom_width = 200, geom_height = 400\<rparr>, imageRenderGeomGen = 1,
      overlayPreviewGeom = \<lparr>geom_x = 50, geom_y = 0, geom_width = 100, geom_height = 200\<rparr>,
      destPoints = [\<lparr>px = 10, py = 10\<rparr>], destPointsGen = 3,
      sourcePoints = [\<lparr>px = 10, py = 10\<rparr>], sourcePointsGen = 3,
      draggingPointIndex = None, draggingSourcePointIndex = None,
      pinningStep = 2, manualScale = 1 / 2, isManuallyAdjusted = False,
      saveWithOverlay = True, processedOverlayUrl = None,
      containerDom = exampleContainer, previewDom = examplePreview\<rparr>"
  unfolding afterFirstPair_def afterFirstPin_eq by (simp add: editor_eval)

text \<open>
  Claim C9 on the example run: on step 1 the mouse-down on the source point changes
  nothing; on step 2 it starts the drag, and a drag of the destination point moves it.
\<close>

theorem source_drag_locked_witness:
  "pinningStep afterFirstPin mod 2 \<noteq> 0
   \<and> dispatch (SourcePointMouseDown 0) afterFirstPin = afterFirstPin
   \<and> pinningStep afterFirstPair mod 2 = 0
   \<and> draggingSourcePointIndex (dispatch (SourcePointMouseDown 0) afterFirstPair) = Some 0
   \<and> sourcePoints (dispatch (WindowMouseMove \<lparr>clientX = 96, clientY = 46, targetInPreview = True\<rparr>)
         (dispatch (SourcePointMouseDown 0) afterFirstPair)) = [\<lparr>px = 30, py = 30\<rparr>]
   \<and> destPoints (dispatch (DestPointDrag 0 \<lparr>clientX = 120, clientY = 80, targetInPreview = False\<rparr>) afterFirstPair)
       = [\<lparr>px = 120, py = 80\<rparr>]"
proof -
  have odd: "pinningStep afterFirstPin mod 2 \<noteq> 0"
    unfolding afterFirstPin_eq by simp
  have even: "editMode afterFirstPair = Auto \<and> 0 < length (sourcePoints afterFirstPair)
      \<and> pinningStep afterFirstPair mod 2 = 0"
    and size: "overlayImageSize afterFirstPair = Some \<lparr>size_width = 100, size_height = 200\<rparr>"
    and dest: "0 < length (destPoints afterFirstPair)" "containerRect afterFirstPair = Some exampleContainer"
    and points: "sourcePoints afterFirstPair = [\<lparr>px = 10, py = 10\<rparr>]" "destPoints afterFirstPair = [\<lparr>px = 10, py = 10\<rparr>]"
    unfolding afterFirstPair_eq by simp_all
  have moved: "draggedSourcePoint \<lparr>clientX = 96, clientY = 46, targetInPreview = True\<rparr> afterFirstPair
      \<lparr>size_width = 100, size_height = 200\<rparr> = \<lparr>px = 30, py = 30\<rparr>"
    unfolding afterFirstPair_eq by (simp add: draggedSourcePoint_def examplePreview_def Let_def)
  show ?thesis
    using odd even size dest
      source_drag_locked_on_odd_steps [of afterFirstPin 0]
      source_drag_locked_on_odd_steps
        [of afterFirstPair 0 "\<lparr>clientX = 96, clientY = 46, targetInPreview = True\<rparr>" 0 exampleContainer
            "\<lparr>clientX = 120, clientY = 80, targetInPreview = False\<rparr>"]
    by (simp add: moved points draggedPoint_def exampleContainer_def)
qed

subsection \<open>Clicks in Auto Pin mode\<close>

lemma effects_keep_layout:
  "previewDom (effectPreviewGeom r s) = previewDom s"
  "overlayImageSize (effectPreviewGeom r s) = overlayImageSize s"
  "previewDom (effectScale r s) = previewDom s"
  "overlayImageSize (effectScale r s) = overlayImageSize s"
  "overlayPreviewGeom (effectScale r s) = overlayPreviewGeom s"
  "previewDom (effectManualSource r s) = previewDom s"
  "overlayImageSize (effectManualSource r s) = overlayImageSize s"
  "overlayPreviewGeom (effectManualSource r s) = overlayPreviewGeom s"
  "previewDom (effectClearOnAuto r s) = previewDom s"
  "overlayImageSize (effectClearOnAuto r s) = overlayImageSize s"
  "overlayPreviewGeom (effectClearOnAuto r s) = overlayPreviewGeom s"
  "previewDom (effectTransform r s) = previewDom s"
  "overlayImageSize (effectTransform r s) = overlayImageSize s"
  "overlayPreviewGeom (effectTransform r s) = overlayPreviewGeom s"
  by (simp_all add: effectPreviewGeom_def effectScale_def updatePointsForScale_def effectManualSource_def
      effectClearOnAuto_def effectTransform_def setter_defs Let_def split: option.splits)

lemma runWhen_keeps_layout:
  "previewDom (runWhen c (effectPreviewGeom r) s) = previewDom s"
  "overlayImageSize (runWhen c (effectPreviewGeom r) s) = overlayImageSize s"
  "previewDom (runWhen c (effectScale r) s) = previewDom s"
  "overlayImageSize (runWhen c (effectScale r) s) = overlayImageSize s"
  "overlayPreviewGeom (runWhen c (effectScale r) s) = overlayPreviewGeom s"
  "previewDom (runWhen c (effectManualSource r) s) = previewDom s"
  "overlayImageSize (runWhen c (effectManualSource r) s) = overlayImageSize s"
  "overlayPreviewGeom (runWhen c (effectManualSource r) s) = overlayPreviewGeom s"
  "previewDom (runWhen c (effectClearOnAuto r) s) = previewDom s"
  "overlayImageSize (runWhen c (effectClearOnAuto r) s) = overlayImageSize s"
  "overlayPreviewGeom (runWhen c (effectClearOnAuto r) s) = overlayPreviewGeom s"
  "previewDom (runWhen c (effectTransform r) s) = previewDom s"
  "overlayImageSize (runWhen c (effectTransform r) s) = overlayImageSize s"
  "overlayPreviewGeom (runWhen c (effectTransform r) s) = overlayPreviewGeom s"
  by (simp_all add: runWhen_def effects_keep_layout)

lemma runEffects_layout:
  "previewDom (runEffects p r) = previewDom r"
  "overlayImageSize (runEffects p r) = overlayImageSize r"
  "overlayPreviewGeom (runEffects p r)
   = overlayPreviewGeom (runWhen (overlayImageSizeGen p \<noteq> overlayImageSizeGen r
                                  \<or> containerRectGen p \<noteq> containerRectGen r) (effectPreviewGeom r) r)"
  by (simp_all add: runEffects_def Let_def runWhen_keeps_layout)

lemma previewGeom_refreshed:
  assumes "editMode r = Auto"
    and "overlayImageSizeGen p \<noteq> overlayImageSizeGen r \<or> containerRectGen p \<noteq> containerRectGen r"
  shows "previewGeomCurrent (runEffects p r)"
  using assms
  by (simp add: previewGeomCurrent_def displayedOverlayRect_def runEffects_layout runEffects_keeps
      runWhen_def effectPreviewGeom_def overlayPreviewRef_def split: option.splits)

lemma previewGeom_untouched:
  assumes "previewGeomCurrent p" and "editMode r = Auto"
    and "previewDom r = previewDom p" "overlayImageSize r = overlayImageSize p"
    and "overlayPreviewGeom r = overlayPreviewGeom p"
  shows "previewGeomCurrent (runEffects p r)"
proof (cases "overlayImageSizeGen p \<noteq> overlayImageSizeGen r \<or> containerRectGen p \<noteq> containerRectGen r")
  case True
  with assms(2) show ?thesis by (rule previewGeom_refreshed)
next
  case False
  then show ?thesis
    using assms
    by (simp add: previewGeomCurrent_def displayedOverlayRect_def runEffects_layout runEffects_keeps
        runWhen_def split: option.splits)
qed

lemma handle_keeps_layout:
  assumes "\<forall>mode. ev \<noteq> ModeChange mode"
    and "\<forall>container preview. ev \<noteq> ContainerResized container preview"
    and "\<forall>w h. ev \<noteq> OverlayImageLoaded w h"
  shows "editMode (handle ev s) = editMode s \<and> previewDom (handle ev s) = previewDom s
    \<and> overlayImageSize (handle ev s) = overlayImageSize s
    \<and> overlayPreviewGeom (handle ev s) = overlayPreviewGeom s"
  using assms
  by (cases ev)
    (simp_all add: handler_defs setter_defs Let_def split: option.splits EditMode.splits)


lemma previewGeom_established:
  assumes "editMode s = Auto"
  shows "previewGeomCurrent (dispatch (ContainerResized container preview) s)"
    and "previewGeomCurrent (dispatch (OverlayImageLoaded w h) s)"
  using assms unfolding dispatch_def
  by (intro previewGeom_refreshed; simp add: handler_defs setter_defs)+

lemma previewGeom_kept:
  assumes "previewGeomCurrent s" and "ev \<noteq> ModeChange Manual"
  shows "previewGeomCurrent (dispatch ev s)"
proof -
  have auto: "editMode s = Auto" using assms(1) by (simp add: previewGeomCurrent_def)
  consider mode where "ev = ModeChange mode"
    | container preview where "ev = ContainerResized container preview"
    | w h where "ev = OverlayImageLoaded w h"
    | "\<forall>mode. ev \<noteq> ModeChange mode" "\<forall>container preview. ev \<noteq> ContainerResized container preview"
      "\<forall>w h. ev \<noteq> OverlayImageLoaded w h"
    by blast
  then show ?thesis
  proof cases
    case 1
    then have ev: "ev = ModeChange Auto" using assms(2) by (cases mode) simp_all
    show ?thesis
      unfolding dispatch_def ev
      using assms(1) auto by (intro previewGeom_untouched) (simp_all add: handleModeChange_def)
  next
    case 2
    then show ?thesis using previewGeom_established(1) [OF auto] by simp
  next
    case 3
    then show ?thesis using previewGeom_established(2) [OF auto] by simp
  next
    case 4
    from handle_keeps_layout [OF this, of s] show ?thesis
      unfolding dispatch_def using assms(1) auto by (intro previewGeom_untouched) simp_all
  qed
qed

lemma outside_click_rejected:
  assumes "previewGeomCurrent s" and "overlayImageSize s = Some overlaySize"
    and "outsideGeom (displayedOverlayRect s overlaySize)
           (clientX e - rect_left (previewDom s)) (clientY e - rect_top (previewDom s))"
  shows "dispatch (PreviewClick e) s = s"
proof -
  have geom: "overlayPreviewGeom s = displayedOverlayRect s overlaySize"
    using assms(1,2) by (simp add: previewGeomCurrent_def)
  have "handleAutoPinClick e Source s = s"
    using assms(2,3) unfolding geom [symmetric]
    by (auto simp: handleAutoPinClick_def overlayPreviewRef_def outsideGeom_def Let_def)
  then have "handle (PreviewClick e) s = s" by simp
  then show ?thesis by (simp add: dispatch_def runEffects_same)
qed

lemma dest_click_accepted:
  assumes "editMode s = Auto" "pinningStep s mod 2 \<noteq> 0" "pinningStep s < 8" "\<not> targetInPreview e"
  shows "pinningStep (dispatch (ContainerClick e) s) = pinningStep s + 1"
    and "destPoints (dispatch (ContainerClick e) s)
            = destPoints s @ [\<lparr>px = clientX e - rect_left (containerDom s),
                                 py = clientY e - rect_top (containerDom s)\<rparr>]"
    and "sourcePoints (dispatch (ContainerClick e) s) = sourcePoints s"
proof -
  have h: "handle (ContainerClick e) s
      = (setDestPoints (destPoints s @ [\<lparr>px = clientX e - rect_left (containerDom s),
                                          py = clientY e - rect_top (containerDom s)\<rparr>]) s)
          \<lparr>pinningStep := pinningStep s + 1\<rparr>"
    using assms by (simp add: handleContainerClick_def handleAutoPinClick_def Let_def)
  have mode: "editMode s = Auto" "editMode (handle (ContainerClick e) s) = Auto"
    using assms(1) unfolding h by (simp_all add: setter_defs)
  have through: "pinningStep (dispatch (ContainerClick e) s) = pinningStep (handle (ContainerClick e) s)"
    "destPoints (dispatch (ContainerClick e) s) = destPoints (handle (ContainerClick e) s)"
    "sourcePoints (dispatch (ContainerClick e) s) = sourcePoints (handle (ContainerClick e) s)"
    unfolding dispatch_def
    by (rule runEffects_keeps, rule runEffects_within_auto [OF mode], rule runEffects_within_auto [OF mode])
  show "pinningStep (dispatch (ContainerClick e) s) = pinningStep s + 1"
    unfolding through h by simp
  show "destPoints (dispatch (ContainerClick e) s)
            = destPoints s @ [\<lparr>px = clientX e - rect_left (containerDom s),
                                 py = clientY e - rect_top (containerDom s)\<rparr>]"
    unfolding through h by (simp add: setter_defs)
  show "sourcePoints (dispatch (ContainerClick e) s) = sourcePoints s"
    unfolding through h by (simp add: setter_defs)
qed

text \<open>
  Claim C3, as amended.  In Auto Pin mode the stored contain-rect of the thumbnail is
  brought up to date whenever the container rectangle or the overlay's size changes, and
  it stays up to date under every event but the switch to manual mode.  While it is up
  to date, a click on the source thumbnail that lands outside the displayed contain-rect
  of the overlay image is rejected with no state change, on every step.  A click on the
  destination surface is not tested against the field photo's contain-rect: on an odd
  step below 8 and outside the thumbnail, it is accepted wherever it lands, appending the
  clicked position and advancing the step.
\<close>

theorem source_click_outside_rejected:
  "(editMode s = Auto \<longrightarrow>
      previewGeomCurrent (dispatch (ContainerResized container preview) s)
      \<and> previewGeomCurrent (dispatch (OverlayImageLoaded w h) s))
   \<and> (previewGeomCurrent s \<and> ev \<noteq> ModeChange Manual \<longrightarrow> previewGeomCurrent (dispatch ev s))
   \<and> (previewGeomCurrent s \<and> overlayImageSize s = Some overlaySize
       \<and> outsideGeom (displayedOverlayRect s overlaySize)
            (clientX e - rect_left (previewDom s)) (clientY e - rect_top (previewDom s)) \<longrightarrow>
        dispatch (PreviewClick e) s = s)
   \<and> (editMode s = Auto \<and> pinningStep s mod 2 \<noteq> 0 \<and> pinningStep s < 8 \<and> \<not> targetInPreview e \<longrightarrow>
        pinningStep (dispatch (ContainerClick e) s) = pinningStep s + 1
        \<and> destPoints (dispatch (ContainerClick e) s)
            = destPoints s @ [\<lparr>px = clientX e - rect_left (containerDom s),
                                 py = clientY e - rect_top (containerDom s)\<rparr>]
        \<and> sourcePoints (dispatch (ContainerClick e) s) = sourcePoints s)"
  using previewGeom_established(1) [of s container preview] previewGeom_established(2) [of s w h]
    previewGeom_kept [of s ev]
    outside_click_rejected [of s overlaySize e] dest_click_accepted [of s e]
  by blast

lemma pinningJustEntered_eq:
  "pinningJustEntered =
     \<lparr>transform = None, editMode = Auto,
      containerRect = Some exampleContainer, containerRectGen = 1,
      overlayImageSize = Some \<lparr>size_width = 100, size_height = 200\<rparr>, overlayImageSizeGen = 1,
      imageRenderGeom = \<lparr>geom_x = 100, geom_y = 0, geom_width = 200, geom_height = 400\<rparr>, imageRenderGeomGen = 1,
      overlayPreviewGeom = \<lparr>geom_x = 0, geom_y = 0, geom_width = 0, geom_height = 0\<rparr>,
      destPoints = [], destPointsGen = 2,
      sourcePoints = [], sourcePointsGen = 2,
      draggingPointIndex = None, draggingSourcePointIndex = None,
      pinningStep = 0, manualScale = 1 / 2, isManuallyAdjusted = False,
      saveWithOverlay = True, processedOverlayUrl = None,
      containerDom = exampleContainer, previewDom = examplePreview\<rparr>"
  unfolding pinningJustEntered_def by (simp add: editor_eval)

lemma pinningStarted_step:
  "pinningStarted = dispatch (ContainerResized exampleContainer examplePreview) pinningJustEntered"
  by (simp add: pinningStarted_def pinningJustEntered_def)

text \<open>
  Claim C3 as stated fails, in two ways.  For destination clicks: after the first
  accepted source click the step is 1 and the field photo is displayed at offset (100, 0)
  with size 200 by 400 in the 400 by 400 container; a click at (10, 10) of the container
  lands outside that rectangle, and it is accepted: the step advances to 2 and the point
  (10, 10) joins the destination sequence.  For source clicks: right after the switch to
  Auto Pin mode the stored contain-rect of the thumbnail is still the initial
  \<open>(0, 0, 0, 0)\<close>, while the overlay image is displayed at offset (50, 0) with size 100
  by 200; a click on the top left corner of the thumbnail element lands outside the
  displayed image, and it is accepted: the step advances to 1 and the source sequence
  gets a point.
\<close>

theorem click_outside_accepted_counterexample:
  "editMode afterFirstPin = Auto \<and> pinningStep afterFirstPin = 1 \<and> destPoints afterFirstPin = []
   \<and> imageRenderGeom afterFirstPin = calculateObjectContainGeometry 400 400 100 200
   \<and> outsideGeom (imageRenderGeom afterFirstPin)
        (10 - rect_left (containerDom afterFirstPin)) (10 - rect_top (containerDom afterFirstPin))
   \<and> pinningStep (dispatch (ContainerClick \<lparr>clientX = 10, clientY = 10, targetInPreview = False\<rparr>) afterFirstPin) = 2
   \<and> destPoints (dispatch (ContainerClick \<lparr>clientX = 10, clientY = 10, targetInPreview = False\<rparr>) afterFirstPin)
       = [\<lparr>px = 10, py = 10\<rparr>]
   \<and> editMode pinningJustEntered = Auto \<and> pinningStep pinningJustEntered = 0
   \<and> sourcePoints pinningJustEntered = []
   \<and> displayedOverlayRect pinningJustEntered \<lparr>size_width = 100, size_height = 200\<rparr>
       = \<lparr>geom_x = 50, geom_y = 0, geom_width = 100, geom_height = 200\<rparr>
   \<and> outsideGeom (displayedOverlayRect pinningJustEntered \<lparr>size_width = 100, size_height = 200\<rparr>)
        (16 - rect_left (previewDom pinningJustEntered)) (16 - rect_top (previewDom pinningJustEntered))
   \<and> pinningStep (dispatch (PreviewClick \<lparr>clientX = 16, clientY = 16, targetInPreview = True\<rparr>) pinningJustEntered) = 1
   \<and> length (sourcePoints (dispatch (PreviewClick \<lparr>clientX = 16, clientY = 16, targetInPreview = True\<rparr>)
                pinningJustEntered)) = 1"
proof -
  have dest: "editMode afterFirstPin = Auto \<and> pinningStep afterFirstPin = 1 \<and> destPoints afterFirstPin = []
   \<and> imageRenderGeom afterFirstPin = calculateObjectContainGeometry 400 400 100 200
   \<and> outsideGeom (imageRenderGeom afterFirstPin)
        (10 - rect_left (containerDom afterFirstPin)) (10 - rect_top (containerDom afterFirstPin))
   \<and> pinningStep (dispatch (ContainerClick \<lparr>clientX = 10, clientY = 10, targetInPreview = False\<rparr>) afterFirstPin) = 2
   \<and> destPoints (dispatch (ContainerClick \<lparr>clientX = 10, clientY = 10, targetInPreview = False\<rparr>) afterFirstPin)
       = [\<lparr>px = 10, py = 10\<rparr>]"
    unfolding afterFirstPin_eq by (simp add: editor_eval outsideGeom_def)
  have source: "editMode pinningJustEntered = Auto \<and> pinningStep pinningJustEntered = 0
   \<and> sourcePoints pinningJustEntered = []
   \<and> displayedOverlayRect pinningJustEntered \<lparr>size_width = 100, size_height = 200\<rparr>
       = \<lparr>geom_x = 50, geom_y = 0, geom_width = 100, geom_height = 200\<rparr>
   \<and> outsideGeom (displayedOverlayRect pinningJustEntered \<lparr>size_width = 100, size_height = 200\<rparr>)
        (16 - rect_left (previewDom pinningJustEntered)) (16 - rect_top (previewDom pinningJustEntered))
   \<and> pinningStep (dispatch (PreviewClick \<lparr>clientX = 16, clientY = 16, targetInPreview = True\<rparr>) pinningJustEntered) = 1
   \<and> length (sourcePoints (dispatch (PreviewClick \<lparr>clientX = 16, clientY = 16, targetInPreview = True\<rparr>)
                pinningJustEntered)) = 1"
    unfolding pinningJustEntered_eq by (simp add: editor_eval outsideGeom_def displayedOverlayRect_def)
  from dest source show ?thesis by blast
qed

text \<open>
  The amended claim on the example page: the resize that follows the switch to Auto Pin
  mode brings the stored contain-rect up to date, the first accepted click keeps it so,
  a click 4 pixels into the thumbnail element (left of the image displayed in it) on
  step 0 is rejected, and the destination click above is accepted.
\<close>

theorem source_click_outside_witness:
  "editMode pinningJustEntered = Auto
   \<and> pinningStarted = dispatch (ContainerResized exampleContainer examplePreview) pinningJustEntered
   \<and> previewGeomCurrent pinningStarted
   \<and> previewGeomCurrent afterFirstPin
   \<and> overlayImageSize pinningStarted = Some \<lparr>size_width = 100, size_height = 200\<rparr>
   \<and> outsideGeom (displayedOverlayRect pinningStarted \<lparr>size_width = 100, size_height = 200\<rparr>)
       (20 - rect_left (previewDom pinningStarted)) (26 - rect_top (previewDom pinningStarted))
   \<and> pinningStep pinningStarted = 0
   \<and> dispatch (PreviewClick \<lparr>clientX = 20, clientY = 26, targetInPreview = True\<rparr>) pinningStarted
       = pinningStarted
   \<and> pinningStep (dispatch (ContainerClick \<lparr>clientX = 10, clientY = 10, targetInPreview = False\<rparr>) afterFirstPin)
       = pinningStep afterFirstPin + 1"
proof -
  have auto: "editMode pinningJustEntered = Auto"
    unfolding pinningJustEntered_eq by simp
  have current: "previewGeomCurrent pinningStarted"
    unfolding pinningStarted_step
    using auto
      source_click_outside_rejected
        [of pinningJustEntered exampleContainer examplePreview]
    by blast
  have current': "previewGeomCurrent afterFirstPin"
    unfolding afterFirstPin_def
    using current
      source_click_outside_rejected
        [of pinningStarted _ _ _ _ "PreviewClick \<lparr>clientX = 76, clientY = 26, targetInPreview = True\<rparr>"]
    by simp
  have size: "overlayImageSize pinningStarted = Some \<lparr>size_width = 100, size_height = 200\<rparr>"
    unfolding pinningStarted_eq by simp
  have out: "outsideGeom (displayedOverlayRect pinningStarted \<lparr>size_width = 100, size_height = 200\<rparr>)
       (20 - rect_left (previewDom pinningStarted)) (26 - rect_top (previewDom pinningStarted))"
    unfolding pinningStarted_eq
    by (simp add: outsideGeom_def displayedOverlayRect_def calculateObjectContainGeometry_def examplePreview_def)
  have step0: "pinningStep pinningStarted = 0"
    unfolding pinningStarted_eq by simp
  have rejected: "dispatch (PreviewClick \<lparr>clientX = 20, clientY = 26, targetInPreview = True\<rparr>) pinningStarted
       = pinningStarted"
    using current size out
      source_click_outside_rejected
        [of pinningStarted _ _ _ _ _ "\<lparr>size_width = 100, size_height = 200\<rparr>"
            "\<lparr>clientX = 20, clientY = 26, targetInPreview = True\<rparr>"]
    by simp
  have odd: "editMode afterFirstPin = Auto \<and> pinningStep afterFirstPin mod 2 \<noteq> 0 \<and> pinningStep afterFirstPin < 8"
    unfolding afterFirstPin_eq by simp
  have accepted: "pinningStep (dispatch (ContainerClick \<lparr>clientX = 10, clientY = 10, targetInPreview = False\<rparr>) afterFirstPin)
       = pinningStep afterFirstPin + 1"
    using odd
      source_click_outside_rejected
        [of afterFirstPin _ _ _ _ _ _ "\<lparr>clientX = 10, clientY = 10, targetInPreview = False\<rparr>"]
    by simp
  show ?thesis
    using auto pinningStarted_step current current' size out step0 rejected accepted by simp
qed

subsection \<open>The manually-adjusted flag\<close>

lemma adjusted_handle:
  assumes "editMode s = Manual" "isManuallyAdjusted s" "keepsAdjustment ev"
  shows "editMode (handle ev s) = Manual \<and> isManuallyAdjusted (handle ev s)
         \<and> dragsOnly evs (containerRect (handle ev s)) (destPoints (handle ev s))
             = dragsOnly (ev # evs) (containerRect s) (destPoints s)"
proof (cases ev)
  case (DestPointDrag i e)
  show ?thesis
  proof (cases "containerRect s")
    case None
    then show ?thesis
      using assms unfolding DestPointDrag by simp
  next
    case (Some rect)
    show ?thesis
    proof (cases "i < length (destPoints s)")
      case True
      then show ?thesis
        using assms Some unfolding DestPointDrag by (simp add: handler_defs setter_defs)
    next
      case False
      then show ?thesis
        using assms Some unfolding DestPointDrag
        by (simp add: replacePoint_update not_less list_update_beyond)
    qed
  qed
next
  case (WindowMouseMove e)
  then show ?thesis
    using assms by (simp add: handleSourceMouseMove_def overlayPreviewRef_def split: option.splits)
next
  case WindowMouseUp
  then show ?thesis
    using assms by (simp add: handleSourceMouseUp_def split: option.splits)
next
  case (FieldPhotoLoaded w h)
  then show ?thesis
    using assms by (simp add: handleFieldPhotoLoaded_def setter_defs split: option.splits)
qed (use assms in \<open>simp_all add: handler_defs setter_defs\<close>)

lemma adjusted_step:
  assumes "editMode s = Manual" "isManuallyAdjusted s" "keepsAdjustment ev"
  shows "editMode (dispatch ev s) = Manual"
    and "isManuallyAdjusted (dispatch ev s)"
    and "dragsOnly evs (containerRect (dispatch ev s)) (destPoints (dispatch ev s))
         = dragsOnly (ev # evs) (containerRect s) (destPoints s)"
proof -
  note h = adjusted_handle [OF assms, of evs]
  have rect: "containerRect (runEffects s (handle ev s)) = containerRect (handle ev s)"
    by (rule runEffects_keeps)
  show "editMode (dispatch ev s) = Manual" and "isManuallyAdjusted (dispatch ev s)"
    using h by (simp_all add: dispatch_def runEffects_keeps)
  show "dragsOnly evs (containerRect (dispatch ev s)) (destPoints (dispatch ev s))
         = dragsOnly (ev # evs) (containerRect s) (destPoints s)"
    using h by (simp add: dispatch_def rect runEffects_adjusted)
qed

text \<open>
  Claim C4, as amended.  In manual mode, once the manually-adjusted flag is set, no
  event other than a scale-slider change, Reset Points or a mode switch clears it, and
  while it is set the destination sequence is never recomputed: over any run of such
  events (geometry changes included) the destination points are what the user's drags
  alone make of them.  The flag is cleared, and auto-recompute re-enabled, by Reset
  Points, by every change of the scale slider and by every mode switch.
\<close>

theorem manual_adjustment_freezes_recompute:
  "(editMode s = Manual \<and> isManuallyAdjusted s \<and> list_all keepsAdjustment evs \<longrightarrow>
      editMode (run evs s) = Manual \<and> isManuallyAdjusted (run evs s)
      \<and> destPoints (run evs s) = dragsOnly evs (containerRect s) (destPoints s))
   \<and> (editMode s = Manual \<longrightarrow>
        \<not> isManuallyAdjusted (dispatch (ManualScaleChange newScale) s)
        \<and> \<not> isManuallyAdjusted (dispatch ResetPoints s))
   \<and> \<not> isManuallyAdjusted (dispatch (ModeChange mode) s)"
proof (intro conjI impI)
  assume "editMode s = Manual \<and> isManuallyAdjusted s \<and> list_all keepsAdjustment evs"
  then have "editMode (run evs s) = Manual \<and> isManuallyAdjusted (run evs s)
      \<and> destPoints (run evs s) = dragsOnly evs (containerRect s) (destPoints s)"
  proof (induction evs arbitrary: s)
    case Nil
    then show ?case by simp
  next
    case (Cons ev evs)
    then have pre: "editMode s = Manual" "isManuallyAdjusted s" "keepsAdjustment ev"
      and rest: "list_all keepsAdjustment evs"
      by simp_all
    note step = adjusted_step(1,2) [OF pre] adjusted_step(3) [OF pre, of evs]
    have "editMode (run evs (dispatch ev s)) = Manual \<and> isManuallyAdjusted (run evs (dispatch ev s))
      \<and> destPoints (run evs (dispatch ev s))
          = dragsOnly evs (containerRect (dispatch ev s)) (destPoints (dispatch ev s))"
      using step(1,2) rest by (intro Cons.IH) simp
    then show ?case
      using step(3) by simp
  qed
  then show "editMode (run evs s) = Manual" and "isManuallyAdjusted (run evs s)"
    and "destPoints (run evs s) = dragsOnly evs (containerRect s) (destPoints s)"
    by simp_all
next
  assume "editMode s = Manual"
  then show "\<not> isManuallyAdjusted (dispatch (ManualScaleChange newScale) s)"
    by (simp add: dispatch_def runEffects_keeps handler_defs)
  from \<open>editMode s = Manual\<close> show "\<not> isManuallyAdjusted (dispatch ResetPoints s)"
    by (simp add: dispatch_def runEffects_keeps handler_defs)
next
  show "\<not> isManuallyAdjusted (dispatch (ModeChange mode) s)"
    by (simp add: dispatch_def runEffects_keeps handler_defs)
qed

text \<open>
  Claim C4 as stated fails for scale changes.  After the user dragged the first
  destination point to (7, 7) the flag is set; moving the scale slider to 1 clears the
  flag in its own handler, and the destination sequence is recomputed to the full
  rectangle, the dragged position lost.
\<close>

theorem scale_change_recomputes_counterexample:
  "editMode afterManualDrag = Manual \<and> isManuallyAdjusted afterManualDrag
   \<and> destPoints afterManualDrag
       = [\<lparr>px = 7, py = 7\<rparr>, \<lparr>px = 300, py = 100\<rparr>, \<lparr>px = 300, py = 300\<rparr>, \<lparr>px = 100, py = 300\<rparr>]
   \<and> destPoints (dispatch (ManualScaleChange 1) afterManualDrag)
       = [\<lparr>px = 0, py = 0\<rparr>, \<lparr>px = 400, py = 0\<rparr>, \<lparr>px = 400, py = 400\<rparr>, \<lparr>px = 0, py = 400\<rparr>]"
  unfolding afterManualDrag_eq by (simp add: editor_eval)

text \<open>
  The amended claim after that drag: a new field photo, a resize of the container and a
  second drag leave the flag set and move only the dragged point.
\<close>

theorem manual_adjustment_witness:
  "editMode afterManualDrag = Manual \<and> isManuallyAdjusted afterManualDrag
   \<and> list_all keepsAdjustment
        [FieldPhotoLoaded 800 400, ContainerResized examplePreview examplePreview, DestPointDrag 1 \<lparr>clientX = 25, clientY = 25, targetInPreview = False\<rparr>]
   \<and> isManuallyAdjusted
        (run [FieldPhotoLoaded 800 400, ContainerResized examplePreview examplePreview, DestPointDrag 1 \<lparr>clientX = 25, clientY = 25, targetInPreview = False\<rparr>]
           afterManualDrag)
   \<and> destPoints
        (run [FieldPhotoLoaded 800 400, ContainerResized examplePreview examplePreview, DestPointDrag 1 \<lparr>clientX = 25, clientY = 25, targetInPreview = False\<rparr>]
           afterManualDrag)
       = [\<lparr>px = 7, py = 7\<rparr>, \<lparr>px = 9, py = 9\<rparr>, \<lparr>px = 300, py = 300\<rparr>, \<lparr>px = 100, py = 300\<rparr>]"
proof -
  have pre: "editMode afterManualDrag = Manual \<and> isManuallyAdjusted afterManualDrag"
    and dest: "destPoints afterManualDrag
       = [\<lparr>px = 7, py = 7\<rparr>, \<lparr>px = 300, py = 100\<rparr>, \<lparr>px = 300, py = 300\<rparr>, \<lparr>px = 100, py = 300\<rparr>]"
    unfolding afterManualDrag_eq by simp_all
  show ?thesis
    using pre
      manual_adjustment_freezes_recompute
        [of afterManualDrag
            "[FieldPhotoLoaded 800 400, ContainerResized examplePreview examplePreview,
              DestPointDrag 1 \<lparr>clientX = 25, clientY = 25, targetInPreview = False\<rparr>]"]
    by (simp add: dest replacePoint_update draggedPoint_def examplePreview_def afterManualDrag_eq)
qed

subsection \<open>The step counter and the lengths of the sequences\<close>

lemma handleAutoPinClick_source_cases:
  obtains (rejected) "handleAutoPinClick e Source s = s"
  | (accepted) point where "pinningStep s mod 2 = 0"
      "handleAutoPinClick e Source s
         = (setSourcePoints (sourcePoints s @ [point]) s)\<lparr>pinningStep := pinningStep s + 1\<rparr>"
proof (cases "pinningStep s \<ge> 8 \<or> overlayPreviewRef s = None \<or> overlayImageSize s = None")
  case True
  then have "handleAutoPinClick e Source s = s"
    by (auto simp: handleAutoPinClick_def)
  then show thesis by (rule rejected)
next
  case False
  then obtain rect overlaySize where some: "overlayPreviewRef s = Some rect" "overlayImageSize s = Some overlaySize"
    and step: "\<not> pinningStep s \<ge> 8"
    by auto
  show thesis
  proof (cases "outsideGeom (overlayPreviewGeom s) (clientX e - rect_left rect) (clientY e - rect_top rect)
                \<or> pinningStep s mod 2 \<noteq> 0")
    case True
    then have "handleAutoPinClick e Source s = s"
      using some step by (auto simp: handleAutoPinClick_def outsideGeom_def Let_def)
    then show thesis by (rule rejected)
  next
    case False
    then have even: "pinningStep s mod 2 = 0" by simp
    have "handleAutoPinClick e Source s
        = (setSourcePoints (sourcePoints s @
             [\<lparr>px = ((clientX e - rect_left rect - geom_x (overlayPreviewGeom s)) / geom_width (overlayPreviewGeom s))
                      * size_width overlaySize,
                py = ((clientY e - rect_top rect - geom_y (overlayPreviewGeom s)) / geom_height (overlayPreviewGeom s))
                      * size_height overlaySize\<rparr>]) s)\<lparr>pinningStep := pinningStep s + 1\<rparr>"
      using False some step by (simp add: handleAutoPinClick_def outsideGeom_def Let_def)
    with even show thesis by (rule accepted)
  qed
qed

lemma handleContainerClick_cases:
  obtains (rejected) "handleContainerClick e s = s"
  | (accepted) point where "pinningStep s mod 2 \<noteq> 0"
      "handleContainerClick e s
         = (setDestPoints (destPoints s @ [point]) s)\<lparr>pinningStep := pinningStep s + 1\<rparr>"
proof (cases "editMode s \<noteq> Auto \<or> pinningStep s mod 2 = 0 \<or> pinningStep s \<ge> 8
              \<or> (overlayPreviewRef s \<noteq> None \<and> targetInPreview e)")
  case True
  then have "handleContainerClick e s = s"
    by (auto simp: handleContainerClick_def)
  then show thesis by (rule rejected)
next
  case False
  then have odd: "pinningStep s mod 2 \<noteq> 0" by simp
  have "handleContainerClick e s
      = (setDestPoints (destPoints s @
           [\<lparr>px = clientX e - rect_left (containerDom s), py = clientY e - rect_top (containerDom s)\<rparr>]) s)
          \<lparr>pinningStep := pinningStep s + 1\<rparr>"
    using False by (auto simp: handleContainerClick_def handleAutoPinClick_def Let_def)
  with odd show thesis by (rule accepted)
qed

lemma handleSourceMouseMove_lengths:
  "length (sourcePoints (handleSourceMouseMove e s)) = length (sourcePoints s)"
  "destPoints (handleSourceMouseMove e s) = destPoints s"
  "pinningStep (handleSourceMouseMove e s) = pinningStep s"
  by (cases "draggingSourcePointIndex s"; cases "overlayPreviewRef s"; cases "overlayImageSize s";
      simp add: handleSourceMouseMove_def Let_def setter_defs replacePoint_length)+

lemma pinInvariant_handle:
  assumes "pinInvariant s" "editMode s = Auto" "ev \<noteq> ModeChange Auto" "editMode (handle ev s) = Auto"
  shows "pinInvariant (handle ev s)"
proof (cases ev)
  case (ModeChange mode)
  then show ?thesis
    using assms by (cases mode) (simp_all add: handleModeChange_def)
next
  case (ManualScaleChange v)
  then show ?thesis using assms by simp
next
  case ResetPoints
  then show ?thesis using assms by simp
next
  case (DestPointDragStart i)
  then show ?thesis using assms by (simp add: pinInvariant_def)
next
  case (DestPointDrag i e)
  then show ?thesis
    using assms
    by (cases "containerRect s")
      (simp_all add: pinInvariant_def handleAutoDestPointDrag_def setter_defs replacePoint_length)
next
  case DestPointDragEnd
  then show ?thesis using assms by (simp add: pinInvariant_def)
next
  case (SourcePointMouseDown i)
  then show ?thesis
    using assms by (simp add: pinInvariant_def handleSourcePointMouseDown_def)
next
  case (WindowMouseMove e)
  then show ?thesis
    using assms by (simp add: pinInvariant_def handleSourceMouseMove_lengths)
next
  case WindowMouseUp
  then show ?thesis
    using assms by (cases "draggingSourcePointIndex s") (simp_all add: pinInvariant_def handleSourceMouseUp_def)
next
  case (PreviewClick e)
  show ?thesis
  proof (cases rule: handleAutoPinClick_source_cases [of e s])
    case rejected
    then show ?thesis using assms(1) PreviewClick by simp
  next
    case (accepted point)
    have h: "handle ev s = (setSourcePoints (sourcePoints s @ [point]) s)\<lparr>pinningStep := pinningStep s + 1\<rparr>"
      using assms(2) accepted(2) by (simp add: PreviewClick)
    have "length (sourcePoints (handle ev s)) = length (sourcePoints s) + 1"
      and "length (destPoints (handle ev s)) = length (destPoints s)"
      and "pinningStep (handle ev s) = pinningStep s + 1"
      unfolding h by (simp_all add: setter_defs)
    moreover have "length (sourcePoints s) = (pinningStep s + 1) div 2"
      and "length (destPoints s) = pinningStep s div 2"
      using assms(1) by (simp_all add: pinInvariant_def)
    ultimately have "length (sourcePoints (handle ev s)) = (pinningStep (handle ev s) + 1) div 2
        \<and> length (destPoints (handle ev s)) = pinningStep (handle ev s) div 2"
      using accepted(1) by presburger
    then show ?thesis by (simp only: pinInvariant_def)
  qed
next
  case (ContainerClick e)
  show ?thesis
  proof (cases rule: handleContainerClick_cases [of e s])
    case rejected
    then show ?thesis using assms(1) ContainerClick by simp
  next
    case (accepted point)
    have h: "handle ev s = (setDestPoints (destPoints s @ [point]) s)\<lparr>pinningStep := pinningStep s + 1\<rparr>"
      using accepted(2) by (simp add: ContainerClick)
    have "length (sourcePoints (handle ev s)) = length (sourcePoints s)"
      and "length (destPoints (handle ev s)) = length (destPoints s) + 1"
      and "pinningStep (handle ev s) = pinningStep s + 1"
      unfolding h by (simp_all add: setter_defs)
    moreover have "length (sourcePoints s) = (pinningStep s + 1) div 2"
      and "length (destPoints s) = pinningStep s div 2"
      using assms(1) by (simp_all add: pinInvariant_def)
    ultimately have "length (sourcePoints (handle ev s)) = (pinningStep (handle ev s) + 1) div 2
        \<and> length (destPoints (handle ev s)) = pinningStep (handle ev s) div 2"
      using accepted(1) by presburger
    then show ?thesis by (simp only: pinInvariant_def)
  qed
next
  case ClearPins
  then show ?thesis
    using assms by (simp add: pinInvariant_def handleClearPins_def setter_defs)
next
  case (ContainerResized c p)
  then show ?thesis
    using assms by (simp add: pinInvariant_def handleContainerResized_def setter_defs)
next
  case (FieldPhotoLoaded w h)
  then show ?thesis
    using assms
    by (cases "containerRect s") (simp_all add: pinInvariant_def handleFieldPhotoLoaded_def setter_defs)
next
  case (OverlayImageLoaded w h)
  then show ?thesis
    using assms by (simp add: pinInvariant_def handleOverlayImageLoaded_def setter_defs)
next
  case (OverlayProcessed url)
  then show ?thesis using assms by (simp add: pinInvariant_def)
next
  case (SaveWithOverlayToggled checked)
  then show ?thesis using assms by (simp add: pinInvariant_def)
qed

lemma pinInvariant_preserved:
  assumes "pinInvariant s" "editMode s = Auto" "ev \<noteq> ModeChange Auto" "editMode (dispatch ev s) = Auto"
  shows "pinInvariant (dispatch ev s)"
proof -
  have mode: "editMode (handle ev s) = Auto"
    using assms(4) by (simp add: dispatch_def runEffects_keeps)
  have "pinInvariant (handle ev s)"
    using assms(1-3) mode by (rule pinInvariant_handle)
  moreover have "pinningStep (dispatch ev s) = pinningStep (handle ev s)"
    "destPoints (dispatch ev s) = destPoints (handle ev s)"
    "sourcePoints (dispatch ev s) = sourcePoints (handle ev s)"
    unfolding dispatch_def
    by (rule runEffects_keeps, rule runEffects_within_auto [OF assms(2) mode],
        rule runEffects_within_auto [OF assms(2) mode])
  ultimately show ?thesis
    by (simp add: pinInvariant_def)
qed

lemma pinInvariant_on_entry:
  assumes "editMode s = Manual"
  shows "pinInvariant (dispatch (ModeChange Auto) s)"
proof -
  have mode: "editMode (handle (ModeChange Auto) s) = Auto"
    by (simp add: handler_defs)
  have "pinningStep (dispatch (ModeChange Auto) s) = pinningStep (handle (ModeChange Auto) s)"
    "destPoints (dispatch (ModeChange Auto) s) = []"
    "sourcePoints (dispatch (ModeChange Auto) s) = []"
    unfolding dispatch_def
    by (rule runEffects_keeps, rule runEffects_entering_auto [OF assms mode],
        rule runEffects_entering_auto [OF assms mode])
  then show ?thesis
    by (simp add: pinInvariant_def handler_defs)
qed

text \<open>
  Claim C10 fails on the code.  In Auto Pin mode, after one accepted source click (step
  1, one source point), pressing the Auto Pin mode button again runs
  \<^verbatim>\<open>handleModeChange('auto')\<close>: the step counter is reset to 0, but the effect that
  empties the sequences depends on \<^verbatim>\<open>editMode\<close> alone, which did not change, so it does
  not run and the source point stays.  Step 0 with one source point breaks
  \<open>sourcePoints.length = ceil(pinningStep/2)\<close>.
\<close>

theorem reselecting_auto_mode_breaks_invariant:
  "editMode afterFirstPin = Auto \<and> pinningStep afterFirstPin = 1
   \<and> length (sourcePoints afterFirstPin) = 1 \<and> length (destPoints afterFirstPin) = 0
   \<and> pinInvariant afterFirstPin
   \<and> editMode (dispatch (ModeChange Auto) afterFirstPin) = Auto
   \<and> pinningStep (dispatch (ModeChange Auto) afterFirstPin) = 0
   \<and> length (sourcePoints (dispatch (ModeChange Auto) afterFirstPin)) = 1
   \<and> \<not> pinInvariant (dispatch (ModeChange Auto) afterFirstPin)"
  unfolding afterFirstPin_eq by (simp add: editor_eval pinInvariant_def)

section \<open>Properties of the export\<close>

lemma finalDestPoints_length: "length (finalDestPoints env s) = length (destPoints s)"
  by (simp add: finalDestPoints_def Let_def)

text \<open>
  Claim C8.  When exporting with the overlay, if the rendering context cannot be
  acquired, or either point sequence has fewer than 4 points, or the full-resolution
  solve returns the undefined sentinel, the export ends in a single alert to the user
  and triggers no download.
\<close>

theorem export_aborts_without_file:
  assumes "saveWithOverlay s"
    and "\<not> contextAcquired env \<or> length (destPoints s) < 4 \<or> length (sourcePoints s) < 4
         \<or> getPerspectiveTransform (sourcePoints s) (finalDestPoints env s) = None"
  shows "(\<exists>message. handleSave env s = [Alert message])
       \<and> (\<forall>filename. Download filename \<notin> set (handleSave env s))"
proof -
  have "\<exists>message. handleSave env s = [Alert message]"
    using assms by (auto simp: handleSave_def finalDestPoints_length)
  then show ?thesis by auto
qed

text \<open>
  Claim C8 on the example run after the first pair of pins, with the filtered overlay
  ready and a browser that provides everything: two points are not enough.
\<close>

theorem export_aborts_witness:
  "saveWithOverlay (afterFirstPair\<lparr>processedOverlayUrl := Some ''data:image/png;base64,''\<rparr>)
   \<and> length (destPoints (afterFirstPair\<lparr>processedOverlayUrl := Some ''data:image/png;base64,''\<rparr>)) < 4
   \<and> handleSave
        \<lparr>exifBytes = None, bgImageLoads = True, naturalWidth = 100, naturalHeight = 200,
         contextAcquired = True, blobCreated = True, svgImageLoads = True, compositingThrows = False\<rparr>
        (afterFirstPair\<lparr>processedOverlayUrl := Some ''data:image/png;base64,''\<rparr>)
      = [Alert ''Please align the overlay before saving.'']"
proof -
  let ?s = "afterFirstPair\<lparr>processedOverlayUrl := Some ''data:image/png;base64,''\<rparr>"
  let ?env = "\<lparr>exifBytes = None, bgImageLoads = True, naturalWidth = 100, naturalHeight = 200,
         contextAcquired = True, blobCreated = True, svgImageLoads = True, compositingThrows = False\<rparr>"
  have pre: "saveWithOverlay ?s" "length (destPoints ?s) < 4"
    unfolding afterFirstPair_eq by simp_all
  have "handleSave ?env ?s = [Alert ''Please align the overlay before saving.'']"
    unfolding afterFirstPair_eq by (simp add: handleSave_def finalDestPoints_length)
  then show ?thesis
    using pre export_aborts_without_file [of ?s ?env] by simp
qed

end
